theory Spec2Isabelle
  imports Complex_Main "HOL-Library.AList"
begin

section \<open>Numbers\<close>

text \<open>
  The arrays of the toolkit hold IEEE-754 doubles. A double is modelled as a real number or
  one of the three special values; rounding, underflow and the overflow of a finite
  arithmetic result are not modelled, and the sign of a zero is not kept (a zero divisor
  counts as positive zero, which is what the Python integers of the source give). The
  special values follow IEEE-754 as numpy implements it: operations on them return values
  (with a warning at most), they never raise.
\<close>

datatype npfloat = Fin real | PosInf | NegInf | NaN


instantiation npfloat :: "{plus,uminus,minus,times,inverse,ord}"
begin

fun uminus_npfloat :: "npfloat \<Rightarrow> npfloat" where
  "uminus_npfloat (Fin x) = Fin (- x)"
| "uminus_npfloat PosInf = NegInf"
| "uminus_npfloat NegInf = PosInf"
| "uminus_npfloat NaN = NaN"

fun plus_npfloat :: "npfloat \<Rightarrow> npfloat \<Rightarrow> npfloat" where
  "plus_npfloat (Fin x) (Fin y) = Fin (x + y)"
| "plus_npfloat NaN b = NaN"
| "plus_npfloat a NaN = NaN"
| "plus_npfloat PosInf NegInf = NaN"
| "plus_npfloat NegInf PosInf = NaN"
| "plus_npfloat PosInf b = PosInf"
| "plus_npfloat a PosInf = PosInf"
| "plus_npfloat NegInf b = NegInf"
| "plus_npfloat a NegInf = NegInf"

definition minus_npfloat :: "npfloat \<Rightarrow> npfloat \<Rightarrow> npfloat" where
  "minus_npfloat a b = a + (- b)"

fun times_npfloat :: "npfloat \<Rightarrow> npfloat \<Rightarrow> npfloat" where
  "times_npfloat (Fin x) (Fin y) = Fin (x * y)"
| "times_npfloat NaN b = NaN"
| "times_npfloat a NaN = NaN"
| "times_npfloat PosInf (Fin y) = (if y = 0 then NaN else if 0 < y then PosInf else NegInf)"
| "times_npfloat NegInf (Fin y) = (if y = 0 then NaN else if 0 < y then NegInf else PosInf)"
| "times_npfloat (Fin x) PosInf = (if x = 0 then NaN else if 0 < x then PosInf else NegInf)"
| "times_npfloat (Fin x) NegInf = (if x = 0 then NaN else if 0 < x then NegInf else PosInf)"
| "times_npfloat PosInf PosInf = PosInf"
| "times_npfloat NegInf NegInf = PosInf"
| "times_npfloat PosInf NegInf = NegInf"
| "times_npfloat NegInf PosInf = NegInf"

fun divide_npfloat :: "npfloat \<Rightarrow> npfloat \<Rightarrow> npfloat" where
  "divide_npfloat (Fin x) (Fin y) =
     (if y = 0 then (if x = 0 then NaN else if 0 < x then PosInf else NegInf)
      else Fin (x / y))"
| "divide_npfloat NaN b = NaN"
| "divide_npfloat a NaN = NaN"
| "divide_npfloat (Fin x) PosInf = Fin 0"
| "divide_npfloat (Fin x) NegInf = Fin 0"
| "divide_npfloat PosInf (Fin y) = (if 0 \<le> y then PosInf else NegInf)"
| "divide_npfloat NegInf (Fin y) = (if 0 \<le> y then NegInf else PosInf)"
| "divide_npfloat PosInf b = NaN"
| "divide_npfloat NegInf b = NaN"

definition inverse_npfloat :: "npfloat \<Rightarrow> npfloat" where
  "inverse_npfloat a = Fin 1 div a"

fun less_npfloat :: "npfloat \<Rightarrow> npfloat \<Rightarrow> bool" where
  "less_npfloat (Fin x) (Fin y) = (x < y)"
| "less_npfloat NaN b = False"
| "less_npfloat a NaN = False"
| "less_npfloat NegInf NegInf = False"
| "less_npfloat NegInf b = True"
| "less_npfloat PosInf b = False"
| "less_npfloat (Fin x) PosInf = True"
| "less_npfloat (Fin x) NegInf = False"

fun less_eq_npfloat :: "npfloat \<Rightarrow> npfloat \<Rightarrow> bool" where
  "less_eq_npfloat (Fin x) (Fin y) = (x \<le> y)"
| "less_eq_npfloat NaN b = False"
| "less_eq_npfloat a NaN = False"
| "less_eq_npfloat NegInf b = True"
| "less_eq_npfloat PosInf PosInf = True"
| "less_eq_npfloat PosInf b = False"
| "less_eq_npfloat (Fin x) PosInf = True"
| "less_eq_npfloat (Fin x) NegInf = False"

instance ..

end

text \<open>\<^verbatim>\<open>np.log\<close>: minus infinity at zero, NaN below it.\<close>

fun np_log :: "npfloat \<Rightarrow> npfloat" where
  "np_log (Fin x) = (if 0 < x then Fin (ln x) else if x = 0 then NegInf else NaN)"
| "np_log PosInf = PosInf"
| "np_log NegInf = NaN"
| "np_log NaN = NaN"

text \<open>\<^verbatim>\<open>np.exp\<close>: the one overflow that is modelled, since it is how a sigmoid reaches
  exactly 0. 709.782712893384 is the logarithm of the largest double.\<close>

fun np_exp :: "npfloat \<Rightarrow> npfloat" where
  "np_exp (Fin x) = (if 709.782712893384 < x then PosInf else Fin (exp x))"
| "np_exp PosInf = PosInf"
| "np_exp NegInf = Fin 0"
| "np_exp NaN = NaN"

text \<open>A Python number held in an attribute: an \<^verbatim>\<open>int\<close> or a \<^verbatim>\<open>float\<close>.\<close>

datatype pynum = PyInt int | PyFloat npfloat

fun as_float :: "pynum \<Rightarrow> npfloat" where
  "as_float (PyInt i) = Fin (of_int i)"
| "as_float (PyFloat x) = x"

datatype error =
    AttributeError string
  | TypeError
  | ValueError
  | ZeroDivisionError
  | KeyError
  | NotFittedError

text \<open>Sequencing of computations that may raise.\<close>

definition bind_err :: "error + 'a \<Rightarrow> ('a \<Rightarrow> error + 'b) \<Rightarrow> error + 'b" where
  "bind_err r f = (case r of Inl e \<Rightarrow> Inl e | Inr v \<Rightarrow> f v)"

section \<open>Arrays\<close>

text \<open>
  A one-dimensional array is a list, a two-dimensional array the list of its rows (numpy
  keeps them rectangular). An array without rows is taken to have no columns.
\<close>

definition np_sum :: "npfloat list \<Rightarrow> npfloat" where
  "np_sum xs = foldl (+) (Fin 0) xs"

definition dot :: "npfloat list \<Rightarrow> npfloat list \<Rightarrow> npfloat" where
  "dot u v = np_sum (map2 (*) u v)"

text \<open>An elementwise operation on two one-dimensional arrays, with numpy's broadcasting
  of an array of length 1.\<close>

definition broadcast2 ::
  "(npfloat \<Rightarrow> npfloat \<Rightarrow> npfloat) \<Rightarrow> npfloat list \<Rightarrow> npfloat list \<Rightarrow> error + npfloat list" where
  "broadcast2 f a b =
     (if length a = length b then Inr (map2 f a b)
      else if length b = 1 then Inr (map (\<lambda>x. f x (hd b)) a)
      else if length a = 1 then Inr (map (\<lambda>y. f (hd a) y) b)
      else Inl ValueError)"

text \<open>\<^verbatim>\<open>np.dot(v, X)\<close> for a vector and a matrix: one entry per column.\<close>

definition vec_mat :: "npfloat list \<Rightarrow> npfloat list list \<Rightarrow> error + npfloat list" where
  "vec_mat v M =
     (if length v = length M then Inr (map (dot v) (transpose M)) else Inl ValueError)"

section \<open>Dataset\<close>

record Dataset =
  X :: "npfloat list list"
  y :: "npfloat list option"
  features :: "string list"
  label :: "string option"

definition get_shape :: "Dataset \<Rightarrow> nat \<times> nat" where
  "get_shape d = (length (X d), (case X d of [] \<Rightarrow> 0 | r # _ \<Rightarrow> length r))"

text \<open>The invariant of the data model: a rectangular feature matrix and, for a labeled
  dataset, one label per sample.\<close>

definition valid_dataset :: "Dataset \<Rightarrow> bool" where
  "valid_dataset d =
     ((\<forall>r \<in> set (X d). length r = snd (get_shape d)) \<and>
      (case y d of None \<Rightarrow> False | Some ys \<Rightarrow> length ys = length (X d)))"

section \<open>LogisticRegression\<close>

record LogisticRegression =
  l2_penalty :: pynum
  alpha :: pynum
  max_iter :: pynum
  theta :: "npfloat list option"
  theta_zero :: "npfloat option"
  cost_history :: "nat \<rightharpoonup> npfloat"

definition LogisticRegression_init :: "pynum \<Rightarrow> pynum \<Rightarrow> pynum \<Rightarrow> LogisticRegression" where
  "LogisticRegression_init l2 a mi =
     \<lparr>l2_penalty = l2, alpha = a, max_iter = mi,
      theta = None, theta_zero = None, cost_history = Map.empty\<rparr>"

text \<open>
  \<^verbatim>\<open>np.dot(dataset.X, self.theta) + self.theta_zero\<close>, the expression \<^verbatim>\<open>fit\<close>,
  \<^verbatim>\<open>predict\<close> and \<^verbatim>\<open>cost\<close> share. With \<^verbatim>\<open>None\<close> for a parameter numpy multiplies or
  adds entry by entry and raises \<^verbatim>\<open>TypeError\<close> at the first entry; an array without
  entries passes through.
\<close>

definition linear_score :: "LogisticRegression \<Rightarrow> Dataset \<Rightarrow> error + npfloat list" where
  "linear_score self d =
     (case theta self of
        None \<Rightarrow> (if concat (X d) = [] then Inr [] else Inl TypeError)
      | Some th \<Rightarrow>
          if \<exists>r \<in> set (X d). length r \<noteq> length th then Inl ValueError
          else (case theta_zero self of
                  None \<Rightarrow> (if X d = [] then Inr [] else Inl TypeError)
                | Some b \<Rightarrow> Inr (map (\<lambda>r. dot r th + b) (X d))))"

text \<open>\<^verbatim>\<open>sigmoid_function\<close> (si.statistics) and \<^verbatim>\<open>accuracy\<close> (si.metrics) are imported by
  the source and are not part of it: the methods take them as the parameters \<open>sig\<close>, applied
  entry by entry, and \<open>acc\<close>.\<close>

definition cost ::
  "(npfloat \<Rightarrow> npfloat) \<Rightarrow> LogisticRegression \<Rightarrow> Dataset \<Rightarrow> error + npfloat" where
  "cost sig self d =
     bind_err (linear_score self d) (\<lambda>z.
       let predictions = map sig z in
       case y d of
         None \<Rightarrow> Inl TypeError
       | Some ys \<Rightarrow>
           bind_err (broadcast2 (*) (map uminus ys) (map np_log predictions)) (\<lambda>a.
           bind_err (broadcast2 (*) (map (\<lambda>v. Fin 1 - v) ys)
                       (map (\<lambda>p. np_log (Fin 1 - p)) predictions)) (\<lambda>b.
           bind_err (broadcast2 (-) a b) (\<lambda>c.
             case theta self of
               None \<Rightarrow> Inl TypeError
             | Some th \<Rightarrow>
                 let m = fst (get_shape d);
                     c1 = np_sum c / Fin (of_nat m)
                 in Inr (c1 + (as_float (l2_penalty self) * np_sum (map (\<lambda>t. t * t) th))
                                / Fin (of_nat (2 * m)))))))"

text \<open>The right-hand sides of the two assignments in the body of the loop of \<^verbatim>\<open>fit\<close>:
  the new \<^verbatim>\<open>theta\<close> and \<^verbatim>\<open>theta_zero\<close>. Every expression that can raise is evaluated
  before the first assignment.\<close>

definition gd_step :: "Dataset \<Rightarrow> LogisticRegression \<Rightarrow> error + (npfloat list \<times> npfloat)" where
  "gd_step d self =
     (let m = fst (get_shape d) in
      bind_err (linear_score self d) (\<lambda>y_pred.
        if m = 0 then Inl ZeroDivisionError
        else case y d of
          None \<Rightarrow> Inl TypeError
        | Some ys \<Rightarrow>
            bind_err (broadcast2 (-) y_pred ys) (\<lambda>r.
            bind_err (vec_mat r (X d)) (\<lambda>g.
              case (theta self, theta_zero self) of
                (Some th, Some b) \<Rightarrow>
                  let rate = as_float (alpha self) * (Fin 1 / Fin (of_nat m));
                      gradient = map (\<lambda>x. rate * x) g;
                      penalization_term =
                        map (\<lambda>t. as_float (alpha self)
                                   * (as_float (l2_penalty self) / Fin (of_nat m)) * t) th
                  in bind_err (broadcast2 (-) th gradient) (\<lambda>t1.
                     bind_err (broadcast2 (-) t1 penalization_term) (\<lambda>t2.
                       Inr (t2, b - rate * np_sum r)))
              | _ \<Rightarrow> Inl TypeError))))"

text \<open>One pass through the body of the loop, up to and including the assignment to
  \<^verbatim>\<open>cost_history[i]\<close>. An exception leaves the estimator as the assignments before it
  made it.\<close>

definition gd_update ::
  "(npfloat \<Rightarrow> npfloat) \<Rightarrow> Dataset \<Rightarrow> nat \<Rightarrow> LogisticRegression
     \<Rightarrow> LogisticRegression \<times> error option" where
  "gd_update sig d i self =
     (case gd_step d self of
        Inl e \<Rightarrow> (self, Some e)
      | Inr (t, b) \<Rightarrow>
          let self' = self\<lparr>theta := Some t, theta_zero := Some b\<rparr> in
          (case cost sig self' d of
             Inl e \<Rightarrow> (self', Some e)
           | Inr c \<Rightarrow> (self'\<lparr>cost_history := (cost_history self')(i \<mapsto> c)\<rparr>, None)))"

text \<open>The loop of \<^verbatim>\<open>fit\<close> over the indices that remain, with its early return.\<close>

fun fit_loop ::
  "(npfloat \<Rightarrow> npfloat) \<Rightarrow> Dataset \<Rightarrow> nat list \<Rightarrow> LogisticRegression
     \<Rightarrow> LogisticRegression \<times> error option" where
  "fit_loop sig d [] self = (self, None)"
| "fit_loop sig d (i # rest) self =
     (case gd_update sig d i self of
        (self', Some e) \<Rightarrow> (self', Some e)
      | (self', None) \<Rightarrow>
          if 0 < i then
            (case (cost_history self' (i - 1), cost_history self' i) of
               (Some c0, Some c1) \<Rightarrow>
                 if c0 - c1 < Fin 0.0001 then (self', None)
                 else fit_loop sig d rest self'
             | _ \<Rightarrow> (self', Some KeyError))
          else fit_loop sig d rest self')"

definition fit ::
  "(npfloat \<Rightarrow> npfloat) \<Rightarrow> LogisticRegression \<Rightarrow> Dataset
     \<Rightarrow> LogisticRegression \<times> error option" where
  "fit sig self d =
     (let n = snd (get_shape d);
          self0 = self\<lparr>theta := Some (replicate n (Fin 0)), theta_zero := Some (Fin 0)\<rparr>
      in case max_iter self0 of
           PyFloat _ \<Rightarrow> (self0, Some TypeError)
         | PyInt k \<Rightarrow> fit_loop sig d [0..<nat k] self0)"

definition predict ::
  "(npfloat \<Rightarrow> npfloat) \<Rightarrow> LogisticRegression \<Rightarrow> Dataset \<Rightarrow> error + npfloat list" where
  "predict sig self d =
     (case linear_score self d of
        Inl e \<Rightarrow> Inl e
      | Inr z \<Rightarrow> Inr (map (\<lambda>p. if Fin 0.5 \<le> p then Fin 1 else Fin 0) (map sig z)))"

definition score ::
  "(npfloat \<Rightarrow> npfloat) \<Rightarrow> (npfloat list option \<Rightarrow> npfloat list \<Rightarrow> error + npfloat)
     \<Rightarrow> LogisticRegression \<Rightarrow> Dataset \<Rightarrow> error + npfloat" where
  "score sig acc self d =
     (case predict sig self d of
        Inl e \<Rightarrow> Inl e
      | Inr y_pred \<Rightarrow> acc (y d) y_pred)"

text \<open>
  Modelled from the spec: \<^verbatim>\<open>sigmoid_function\<close> (si.statistics.sigmoid_function), which the
  source imports and does not contain. The spec calls it the logistic (sigmoid) activation:
  \<open>1 / (1 + e\<^sup>-\<^sup>x)\<close>, computed with \<^verbatim>\<open>np.exp\<close>.
\<close>

definition sigmoid_function :: "npfloat \<Rightarrow> npfloat" where
  "sigmoid_function x = Fin 1 / (Fin 1 + np_exp (- x))"

text \<open>
  Modelled from the spec: \<^verbatim>\<open>accuracy\<close> (si.metrics.accuracy), which the source imports and
  does not contain. The spec gives it as the fraction of exact matches between the true and
  the predicted labels; what it does without labels or with arrays of different lengths the
  spec does not say, and the model raises there. A NaN matches nothing, as in numpy.
\<close>

definition accuracy :: "npfloat list option \<Rightarrow> npfloat list \<Rightarrow> error + npfloat" where
  "accuracy y_true y_pred =
     (case y_true of
        None \<Rightarrow> Inl TypeError
      | Some ys \<Rightarrow>
          if length ys = length y_pred
          then Inr (Fin (of_nat (length (filter (\<lambda>(a, b). a \<le> b \<and> b \<le> a) (zip ys y_pred))))
                    / Fin (of_nat (length ys)))
          else Inl ValueError)"

section \<open>Model selection\<close>

text \<open>
  \<^verbatim>\<open>cross_validate\<close> and \<^verbatim>\<open>grid_search\<close> take any object with the methods \<^verbatim>\<open>fit\<close> and
  \<^verbatim>\<open>score\<close>; grid search also tests and assigns its attributes by name. The operations
  of the object are passed as a record. A call returns the object as the call left it
  (Python mutates it in place), also when it raises.
\<close>

record ('m, 'v) model_ops =
  hasattr :: "'m \<Rightarrow> string \<Rightarrow> bool"
  setattr :: "'m \<Rightarrow> string \<Rightarrow> 'v \<Rightarrow> 'm"
  str_of :: "'m \<Rightarrow> string"
  fit_of :: "'m \<Rightarrow> Dataset \<Rightarrow> 'm \<times> error option"
  score_of :: "'m \<Rightarrow> Dataset \<Rightarrow> error + npfloat"

record scores =
  seeds :: "nat list"
  train :: "npfloat list"
  test :: "npfloat list"

record 'v grid_scores = scores +
  parameters :: "(string \<times> 'v) list"

text \<open>The state of numpy's global random generator is the sequence of the numbers it will
  draw; \<^verbatim>\<open>np.random.randint(0, 1000)\<close> takes the first.\<close>

type_synonym rng = "nat \<Rightarrow> nat"

definition randint :: "rng \<Rightarrow> nat \<times> rng" where
  "randint g = (g 0, (\<lambda>i. g (Suc i)))"

text \<open>\<^verbatim>\<open>train_test_split\<close> (si.model_selection.split) is imported by the source and is
  not part of it: it is the parameter \<open>split\<close>, from the dataset, the test size and the seed
  to the train and the test partition.\<close>

type_synonym splitter = "Dataset \<Rightarrow> npfloat \<Rightarrow> nat \<Rightarrow> Dataset \<times> Dataset"

type_synonym scorer = "npfloat list option \<Rightarrow> npfloat \<Rightarrow> npfloat"

text \<open>The body of the loop of \<^verbatim>\<open>cross_validate\<close>, up to its last append.\<close>

definition cv_fold ::
  "('m, 'v) model_ops \<Rightarrow> splitter \<Rightarrow> 'm \<Rightarrow> Dataset \<Rightarrow> scorer option \<Rightarrow> npfloat \<Rightarrow> rng
     \<Rightarrow> scores \<Rightarrow> 'm \<times> rng \<times> (error + scores)" where
  "cv_fold ops split model dataset scoring test_size g sc =
     (let (random_state, g') = randint g;
          sc1 = sc\<lparr>seeds := seeds sc @ [random_state]\<rparr>;
          (tr, te) = split dataset test_size random_state
      in case fit_of ops model tr of
           (model', Some e) \<Rightarrow> (model', g', Inl e)
         | (model', None) \<Rightarrow>
             (model', g',
              (case scoring of
                 None \<Rightarrow>
                   bind_err (score_of ops model' tr) (\<lambda>s1.
                   bind_err (score_of ops model' te) (\<lambda>s2.
                     Inr (sc1\<lparr>train := train sc1 @ [s1], test := test sc1 @ [s2]\<rparr>)))
               | Some f \<Rightarrow>
                   bind_err (score_of ops model' tr) (\<lambda>s1.
                   bind_err (score_of ops model' tr) (\<lambda>s2.
                     Inr (sc1\<lparr>train := train sc1 @ [f (y tr) s1],
                              test := test sc1 @ [f (y te) s2]\<rparr>))))))"

text \<open>The loop of \<^verbatim>\<open>cross_validate\<close> over the indices that remain. The \<^verbatim>\<open>return\<close> is
  the last statement of the body, so the first pass returns; when there is no pass the
  function ends without a \<^verbatim>\<open>return\<close> and its value is \<^verbatim>\<open>None\<close>.\<close>

fun cv_loop ::
  "('m, 'v) model_ops \<Rightarrow> splitter \<Rightarrow> Dataset \<Rightarrow> scorer option \<Rightarrow> npfloat \<Rightarrow> nat list
     \<Rightarrow> 'm \<Rightarrow> rng \<Rightarrow> scores \<Rightarrow> 'm \<times> rng \<times> (error + scores option)" where
  "cv_loop ops split dataset scoring test_size [] model g sc = (model, g, Inr None)"
| "cv_loop ops split dataset scoring test_size (i # rest) model g sc =
     (case cv_fold ops split model dataset scoring test_size g sc of
        (model', g', Inl e) \<Rightarrow> (model', g', Inl e)
      | (model', g', Inr sc') \<Rightarrow> (model', g', Inr (Some sc')))"

definition cross_validate ::
  "('m, 'v) model_ops \<Rightarrow> splitter \<Rightarrow> 'm \<Rightarrow> Dataset \<Rightarrow> scorer option \<Rightarrow> int \<Rightarrow> npfloat \<Rightarrow> rng
     \<Rightarrow> 'm \<times> rng \<times> (error + scores option)" where
  "cross_validate ops split model dataset scoring cv test_size g =
     cv_loop ops split dataset scoring test_size [0..<nat cv] model g
       \<lparr>seeds = [], train = [], test = []\<rparr>"

text \<open>A parameter grid is a dictionary from names to the candidate values, in insertion
  order: an association list.\<close>

type_synonym 'v parameter_grid = "(string \<times> 'v list) list"

text \<open>The inner loop of \<^verbatim>\<open>grid_search\<close>: assign the values of one combination.\<close>

definition set_parameters ::
  "('m, 'v) model_ops \<Rightarrow> string list \<Rightarrow> 'v list \<Rightarrow> 'm \<Rightarrow> 'm \<times> (string \<times> 'v) list" where
  "set_parameters ops keys combination model =
     fold (\<lambda>(parameter, v) (m, ps). (setattr ops m parameter v, AList.update parameter v ps))
       (zip keys combination) (model, [])"

fun grid_loop ::
  "('m, 'v) model_ops \<Rightarrow> splitter \<Rightarrow> Dataset \<Rightarrow> string list \<Rightarrow> scorer option \<Rightarrow> int
     \<Rightarrow> npfloat \<Rightarrow> 'v list list \<Rightarrow> 'm \<Rightarrow> rng \<Rightarrow> 'v grid_scores list
     \<Rightarrow> 'm \<times> rng \<times> (error + 'v grid_scores list)" where
  "grid_loop ops split dataset keys scoring cv test_size [] model g acc = (model, g, Inr acc)"
| "grid_loop ops split dataset keys scoring cv test_size (combination # rest) model g acc =
     (let (model1, ps) = set_parameters ops keys combination model
      in case cross_validate ops split model1 dataset scoring cv test_size g of
           (model2, g2, Inl e) \<Rightarrow> (model2, g2, Inl e)
         | (model2, g2, Inr None) \<Rightarrow> (model2, g2, Inl TypeError)
         | (model2, g2, Inr (Some sc)) \<Rightarrow>
             grid_loop ops split dataset keys scoring cv test_size rest model2 g2
               (acc @ [\<lparr>seeds = seeds sc, train = train sc, test = test sc,
                        parameters = ps\<rparr>]))"

definition grid_search ::
  "('m, 'v) model_ops \<Rightarrow> splitter \<Rightarrow> 'm \<Rightarrow> Dataset \<Rightarrow> 'v parameter_grid \<Rightarrow> scorer option
     \<Rightarrow> int \<Rightarrow> npfloat \<Rightarrow> rng \<Rightarrow> 'm \<times> rng \<times> (error + 'v grid_scores list)" where
  "grid_search ops split model dataset parameter_grid scoring cv test_size g =
     (case find (\<lambda>parameter. \<not> hasattr ops model parameter) (map fst parameter_grid) of
        Some parameter \<Rightarrow>
          (model, g,
           Inl (AttributeError (''Model '' @ str_of ops model @ '' does not have parameter ''
                                  @ parameter @ ''.'')))
      | None \<Rightarrow>
          grid_loop ops split dataset (map fst parameter_grid) scoring cv test_size
            (product_lists (map snd parameter_grid)) model g [])"

section \<open>LogisticRegression as a model for grid search\<close>

text \<open>
  The names \<^verbatim>\<open>hasattr\<close> finds on a \<^verbatim>\<open>LogisticRegression\<close>: the attributes \<^verbatim>\<open>__init__\<close>
  assigns and the methods of the class (the names every Python object inherits are left out).
\<close>

definition lr_attributes :: "string list" where
  "lr_attributes =
     [''l2_penalty'', ''alpha'', ''max_iter'', ''theta'', ''theta_zero'', ''cost_history'',
      ''fit'', ''predict'', ''score'', ''cost'']"

definition lr_hasattr :: "LogisticRegression \<Rightarrow> string \<Rightarrow> bool" where
  "lr_hasattr self name = (name \<in> set lr_attributes)"

text \<open>
  A grid assigns Python numbers. Assigned to one of the three parameters of the constructor
  the number replaces the value. The other attributes hold arrays, a dictionary and the
  methods, and the record types them as such: the assignment of a number to one of them is
  not represented, and the model leaves the record as it is.
\<close>

definition lr_setattr :: "LogisticRegression \<Rightarrow> string \<Rightarrow> pynum \<Rightarrow> LogisticRegression" where
  "lr_setattr self name v =
     (if name = ''l2_penalty'' then self\<lparr>l2_penalty := v\<rparr>
      else if name = ''alpha'' then self\<lparr>alpha := v\<rparr>
      else if name = ''max_iter'' then self\<lparr>max_iter := v\<rparr>
      else self)"

definition lr_getattr :: "LogisticRegression \<Rightarrow> string \<Rightarrow> pynum option" where
  "lr_getattr self name =
     (if name = ''l2_penalty'' then Some (l2_penalty self)
      else if name = ''alpha'' then Some (alpha self)
      else if name = ''max_iter'' then Some (max_iter self)
      else None)"

definition LogisticRegression_ops ::
  "(npfloat \<Rightarrow> npfloat) \<Rightarrow> (npfloat list option \<Rightarrow> npfloat list \<Rightarrow> error + npfloat)
     \<Rightarrow> (LogisticRegression, pynum) model_ops" where
  "LogisticRegression_ops sig acc =
     \<lparr>hasattr = lr_hasattr, setattr = lr_setattr,
      str_of = (\<lambda>self. ''<LogisticRegression object>''),
      fit_of = fit sig, score_of = score sig acc\<rparr>"

text \<open>
  Modelled from the spec: \<^verbatim>\<open>train_test_split\<close> (si.model_selection.split), which the source
  imports and does not contain. The spec: it splits a dataset into a train and a test
  partition given a ratio and a random seed. Which permutation the seed gives the spec does
  not say; the model rotates the samples by the seed and takes the first
  \<open>\<lfloor>n_samples \<sqdot> test_size\<rfloor>\<close> of them for the test partition.
\<close>

definition rotate_by :: "nat \<Rightarrow> 'a list \<Rightarrow> 'a list" where
  "rotate_by k xs = drop (k mod length xs) xs @ take (k mod length xs) xs"

definition train_test_split :: splitter where
  "train_test_split dataset test_size random_state =
     (let n_samples = length (X dataset);
          n_test = (case test_size of Fin t \<Rightarrow> nat \<lfloor>real n_samples * t\<rfloor> | _ \<Rightarrow> 0);
          rows = rotate_by random_state (X dataset);
          labels = map_option (rotate_by random_state) (y dataset)
      in (dataset\<lparr>X := drop n_test rows, y := map_option (drop n_test) labels\<rparr>,
          dataset\<lparr>X := take n_test rows, y := map_option (take n_test) labels\<rparr>))"

section \<open>The update rule of the spec\<close>

text \<open>
  The gradient step in the words of the spec (4.1): the linear score \<open>z = X\<sqdot>theta + theta_zero\<close>,
  the gradient \<open>(alpha/m)\<sqdot>X\<^sup>t\<sqdot>(z - y)\<close>, the penalty \<open>(alpha\<sqdot>l2_penalty/m)\<sqdot>theta\<close>, and
  \<open>theta \<leftarrow> theta - gradient - penalty\<close>, \<open>theta_zero \<leftarrow> theta_zero - (alpha/m)\<sqdot>\<Sum>(z - y)\<close>.
\<close>

definition mat_vec :: "npfloat list list \<Rightarrow> npfloat list \<Rightarrow> npfloat list" where
  "mat_vec M v = map (\<lambda>r. dot r v) M"

definition spec_gradient_step ::
  "npfloat \<Rightarrow> npfloat \<Rightarrow> npfloat list list \<Rightarrow> npfloat list \<Rightarrow> npfloat list \<times> npfloat
     \<Rightarrow> npfloat list \<times> npfloat" where
  "spec_gradient_step a l2 M ys p =
     (let th = fst p; b = snd p;
          m = Fin (of_nat (length M));
          z = map (\<lambda>s. s + b) (mat_vec M th);
          gradient = map (\<lambda>g. a / m * g) (mat_vec (transpose M) (map2 (-) z ys));
          penalty = map (\<lambda>t. a * l2 / m * t) th
      in (map2 (-) (map2 (-) th gradient) penalty, b - a / m * np_sum (map2 (-) z ys)))"

text \<open>The parameters after \<open>i\<close> such steps from the initial ones of \<^verbatim>\<open>fit\<close>: the zero
  vector of length \<open>n\<close> and 0.\<close>

definition spec_iterate ::
  "npfloat \<Rightarrow> npfloat \<Rightarrow> npfloat list list \<Rightarrow> npfloat list \<Rightarrow> nat \<Rightarrow> nat
     \<Rightarrow> npfloat list \<times> npfloat" where
  "spec_iterate a l2 M ys n i =
     (spec_gradient_step a l2 M ys ^^ i) (replicate n (Fin 0), Fin 0)"

text \<open>An estimator whose parameters are arrays for \<open>n\<close> features.\<close>

definition fitted :: "nat \<Rightarrow> LogisticRegression \<Rightarrow> bool" where
  "fitted n s =
     (case (theta s, theta_zero s) of (Some th, Some b) \<Rightarrow> length th = n | _ \<Rightarrow> False)"

section \<open>Example inputs\<close>

definition example_dataset :: Dataset where
  "example_dataset =
     \<lparr>X = [[Fin 1], [Fin 3], [Fin (- 2)], [Fin (- 1)]],
      y = Some [Fin 0, Fin 1, Fin 0, Fin 1],
      features = [''0''], label = Some ''y''\<rparr>"

definition example_model :: LogisticRegression where
  "example_model = LogisticRegression_init (PyInt 1) (PyFloat (Fin 0.1)) (PyInt 2)"

definition single_class_dataset :: Dataset where
  "single_class_dataset =
     \<lparr>X = [[Fin 1], [Fin 2]], y = Some [Fin 0, Fin 0],
      features = [''0''], label = Some ''y''\<rparr>"

definition patient_model :: LogisticRegression where
  "patient_model = LogisticRegression_init (PyInt 1) (PyFloat (Fin 0.1)) (PyInt 5)"



definition unfit_model :: LogisticRegression where
  "unfit_model = LogisticRegression_init (PyInt 1) (PyFloat (Fin 0.001)) (PyInt 1000)"

section \<open>Example inputs for model selection\<close>

text \<open>A scoring function that returns the value it is given, and a random generator that
  draws \<open>k, k + 1, \<dots>\<close>.\<close>

definition value_scoring :: scorer where
  "value_scoring y_true v = v"

definition seeds_from :: "nat \<Rightarrow> rng" where
  "seeds_from k = (\<lambda>i. k + i)"

definition example_grid :: "pynum parameter_grid" where
  "example_grid = [(''l2_penalty'', [PyInt 1, PyInt 10]), (''max_iter'', [PyInt 1, PyInt 2])]"

definition unknown_grid :: "pynum parameter_grid" where
  "unknown_grid = [(''alpha'', [PyFloat (Fin 0.1)]), (''gamma'', [PyInt 1, PyInt 2])]"

section \<open>Runs of the loop of fit\<close>

text \<open>
  What the cost history says of a run of the loop over the indices from \<open>a\<close> up to \<open>b\<close>
  that started with the history \<open>h\<close> and ended with \<open>h'\<close> and the outcome \<open>out\<close>: the passes
  \<open>a, \<dots>, j - 1\<close> were made and each wrote its entry, no other entry changed, a pass after
  the first whose cost fell by less than 0.0001 was the last one and the loop returned there,
  and a loop that returned before the index \<open>b\<close> did so after such a pass.
\<close>

definition run_of ::
  "nat \<Rightarrow> nat \<Rightarrow> (nat \<rightharpoonup> npfloat) \<Rightarrow> (nat \<rightharpoonup> npfloat) \<Rightarrow> error option \<Rightarrow> nat \<Rightarrow> bool" where
  "run_of a b h h' out j =
     (a \<le> j \<and> j \<le> max a b \<and>
      (\<forall>i. a \<le> i \<and> i < j \<longrightarrow> h' i \<noteq> None) \<and>
      (\<forall>i. i < a \<or> j \<le> i \<longrightarrow> h' i = h i) \<and>
      (\<forall>i c0 c1. 0 < i \<and> a \<le> i \<and> i < j \<and> h' (i - 1) = Some c0 \<and> h' i = Some c1
          \<and> c0 - c1 < Fin 0.0001 \<longrightarrow> i = j - 1 \<and> out = None) \<and>
      (out = None \<and> j < b \<longrightarrow>
         (\<exists>c0 c1. a < j \<and> 1 < j \<and> h' (j - 2) = Some c0 \<and> h' (j - 1) = Some c1
            \<and> c0 - c1 < Fin 0.0001)))"

section \<open>Arithmetic and arrays\<close>

lemma Fin_minus [simp]: "Fin a - Fin b = Fin (a - b)"
  by (simp add: minus_npfloat_def)

lemma NaN_absorb [simp]:
  "a + NaN = NaN" "NaN + a = NaN" "a * NaN = NaN" "NaN * a = NaN"
  "a / NaN = NaN" "NaN / a = NaN" "a - NaN = NaN" "NaN - a = NaN"
  by (cases a; simp add: minus_npfloat_def)+

lemma npfloat_times_commute: "(a::npfloat) * b = b * a"
  by (cases a; cases b) auto

lemma rate_eq: "0 < m \<Longrightarrow> a * (Fin 1 / Fin m) = a / Fin m"
  by (cases a) auto

lemma rate_eq': "0 < m \<Longrightarrow> a * Fin (1 / m) = a / Fin m"
  by (cases a) auto

lemma penalty_rate_eq: "0 < m \<Longrightarrow> a * (l / Fin m) = a * l / Fin m"
  by (cases a; cases l) (auto simp: zero_less_divide_iff divide_less_0_iff)

lemma dot_commute: "dot u v = dot v u"
proof -
  have "map2 (*) u v = map2 (*) v u"
    by (subst zip_commute) (simp add: npfloat_times_commute case_prod_unfold comp_def)
  then show ?thesis by (simp add: dot_def)
qed

lemma sigmoid_ge_half: "(Fin (1 / 2) \<le> sigmoid_function (Fin x)) = (0 \<le> x)"
proof -
  have pos: "0 < 1 + exp (- x)" by (simp add: add_pos_pos)
  have "(1 / 2 \<le> 1 / (1 + exp (- x))) = (0 \<le> x)"
    using pos by (simp add: field_simps)
  then show ?thesis
    using pos by (auto simp: sigmoid_function_def)
qed


lemma broadcast2_same:
  "length a = length b \<Longrightarrow> broadcast2 f a b = Inr (map2 f a b)"
  by (simp add: broadcast2_def)

lemma foldr_max_rect:
  "\<forall>r \<in> set xs. length r = n \<Longrightarrow> foldr (\<lambda>r. max (length r)) xs 0 = (if xs = [] then 0 else n)"
  by (induction xs) auto

lemma length_transpose_rect:
  "xs \<noteq> [] \<Longrightarrow> \<forall>r \<in> set xs. length r = n \<Longrightarrow> length (transpose xs) = n"
  using foldr_max_rect[of xs n] by (simp add: length_transpose)

section \<open>The parameters stay arrays of the right length\<close>

lemma fittedE:
  assumes "fitted n s"
  obtains th b where "theta s = Some th" "theta_zero s = Some b" "length th = n"
  using assms by (auto simp: fitted_def split: option.splits)

lemma fittedI: "theta s = Some th \<Longrightarrow> theta_zero s = Some b \<Longrightarrow> length th = n \<Longrightarrow> fitted n s"
  by (simp add: fitted_def)

lemma linear_score_Some:
  "theta self = Some th \<Longrightarrow> theta_zero self = Some b \<Longrightarrow> \<forall>r \<in> set (X d). length r = length th
     \<Longrightarrow> linear_score self d = Inr (map (\<lambda>r. dot r th + b) (X d))"
  by (auto simp: linear_score_def)

lemma linear_score_rows:
  "linear_score self d = Inr z \<Longrightarrow> theta self = Some th \<Longrightarrow> \<forall>r \<in> set (X d). length r = length th"
  by (auto simp: linear_score_def split: if_splits option.splits)

lemma gd_step_Inr:
  assumes "gd_step d self = Inr (t, b')"
  shows "\<exists>th b. theta self = Some th \<and> theta_zero self = Some b \<and> length t = length th
           \<and> (\<forall>r \<in> set (X d). length r = length th) \<and> X d \<noteq> []"
proof -
  from assms obtain z where z: "linear_score self d = Inr z"
    by (auto simp: gd_step_def bind_err_def Let_def split: sum.splits)
  from assms have ne: "X d \<noteq> []"
    by (auto simp: gd_step_def bind_err_def Let_def get_shape_def z split: if_splits)
  from assms z obtain th b where th: "theta self = Some th" "theta_zero self = Some b"
    by (auto simp: gd_step_def bind_err_def Let_def split: sum.splits option.splits if_splits)
  have rows: "\<forall>r \<in> set (X d). length r = length th"
    using linear_score_rows[OF z th(1)] .
  have lt: "length (transpose (X d)) = length th"
    using length_transpose_rect[OF ne rows] .
  from assms z ne th obtain ys r g t1 where
      ys: "y d = Some ys" and r: "broadcast2 (-) z ys = Inr r" and g: "vec_mat r (X d) = Inr g"
      and t1: "broadcast2 (-) th (map (\<lambda>x. as_float (alpha self)
                 * (Fin 1 / Fin (of_nat (fst (get_shape d)))) * x) g) = Inr t1"
      and t: "broadcast2 (-) t1 (map (\<lambda>t. as_float (alpha self)
                 * (as_float (l2_penalty self) / Fin (of_nat (fst (get_shape d)))) * t) th) = Inr t"
    by (simp add: gd_step_def bind_err_def Let_def get_shape_def split: sum.splits option.splits)
  from g have "length g = length th"
    by (simp add: vec_mat_def lt split: if_splits) (use lt in auto)
  with t1 have "length t1 = length th" by (simp add: broadcast2_def) auto
  with t have "length t = length th" by (simp add: broadcast2_def) auto
  with th rows ne show ?thesis by blast
qed

lemma gd_update_fitted:
  assumes "gd_update sig d i s = (s', out)" and "fitted n s"
  shows "fitted n s'"
proof (cases "gd_step d s")
  case (Inl e)
  with assms show ?thesis by (simp add: gd_update_def)
next
  case (Inr p)
  obtain t b where p: "p = (t, b)" by (cases p)
  from gd_step_Inr[OF Inr[unfolded p]] assms(2) have "length t = n"
    by (auto elim!: fittedE)
  with assms(1) Inr p show ?thesis
    by (auto simp: gd_update_def fitted_def Let_def split: sum.splits)
qed

lemma fit_loop_fitted:
  "fit_loop sig d is s = (s', out) \<Longrightarrow> fitted n s \<Longrightarrow> fitted n s'"
proof (induction "is" arbitrary: s)
  case Nil
  then show ?case by simp
next
  case (Cons i rest)
  obtain s1 o1 where u: "gd_update sig d i s = (s1, o1)" by (cases "gd_update sig d i s")
  have f1: "fitted n s1" using gd_update_fitted[OF u Cons.prems(2)] .
  show ?case
  proof (cases o1)
    case (Some e)
    with Cons.prems(1) u f1 show ?thesis by simp
  next
    case None
    with Cons.prems(1) u f1 Cons.IH[of s1] show ?thesis
      by (auto split: if_splits option.splits)
  qed
qed

lemma fit_fitted:
  assumes a: "fit sig self d = (self', out)"
  shows "fitted (snd (get_shape d)) self'"
proof -
  let ?n = "snd (get_shape d)"
  let ?s0 = "self\<lparr>theta := Some (replicate ?n (Fin 0)), theta_zero := Some (Fin 0)\<rparr>"
  have f0: "fitted ?n ?s0" by (simp add: fitted_def)
  show ?thesis
  proof (cases "max_iter self")
    case (PyInt k)
    with a have "fit_loop sig d [0..<nat k] ?s0 = (self', out)"
      by (simp add: fit_def Let_def)
    from fit_loop_fitted[OF this f0] show ?thesis .
  next
    case (PyFloat x)
    with a f0 show ?thesis by (auto simp: fit_def Let_def)
  qed
qed

section \<open>Evaluation on the example inputs\<close>

lemmas example_defs =
  fit_def gd_update_def gd_step_def cost_def linear_score_def get_shape_def bind_err_def
  broadcast2_def vec_mat_def dot_def np_sum_def Let_def upt_rec
  example_dataset_def example_model_def LogisticRegression_init_def

lemma example_dataset_valid: "valid_dataset example_dataset"
  by (simp add: valid_dataset_def example_dataset_def get_shape_def)

lemma example_fit_succeeds:
  "fit sigmoid_function example_model example_dataset =
     (fst (fit sigmoid_function example_model example_dataset), None)"
proof -
  have "snd (fit sigmoid_function example_model example_dataset) = None"
    by (simp add: example_defs sigmoid_function_def)
  then show ?thesis by (metis prod.collapse)
qed

section \<open>Prediction\<close>

text \<open>
  C9. On a valid labeled dataset, after \<^verbatim>\<open>fit\<close> has returned, \<^verbatim>\<open>predict\<close> on that dataset
  returns: it applies the sigmoid to the linear score \<open>X\<sqdot>theta + theta_zero\<close> of every sample,
  maps the values from 0.5 on to 1 and the others to 0, and the vector has one entry per
  sample, each 0 or 1.
\<close>

theorem predict_after_fit:
  assumes "valid_dataset d" and "fit sig self d = (self', None)"
  shows "\<exists>th b ps. theta self' = Some th \<and> theta_zero self' = Some b \<and>
           predict sig self' d = Inr ps \<and>
           ps = map (\<lambda>r. if Fin 0.5 \<le> sig (dot r th + b) then Fin 1 else Fin 0) (X d) \<and>
           length ps = fst (get_shape d) \<and>
           (\<forall>p \<in> set ps. p = Fin 0 \<or> p = Fin 1)"
proof -
  from fit_fitted[OF assms(2)] obtain th b where
    th: "theta self' = Some th" "theta_zero self' = Some b" "length th = snd (get_shape d)"
    by (auto elim!: fittedE)
  from assms(1) th(3) have rows: "\<forall>r \<in> set (X d). length r = length th"
    by (simp add: valid_dataset_def)
  have "predict sig self' d =
          Inr (map (\<lambda>r. if Fin 0.5 \<le> sig (dot r th + b) then Fin 1 else Fin 0) (X d))"
    by (simp add: predict_def linear_score_Some[OF th(1,2) rows] comp_def)
  with th show ?thesis by (auto simp: get_shape_def)
qed

theorem predict_after_fit_witness:
  "valid_dataset example_dataset \<and>
   (\<exists>ps. predict sigmoid_function (fst (fit sigmoid_function example_model example_dataset))
            example_dataset = Inr ps \<and>
         length ps = 4 \<and> (\<forall>p \<in> set ps. p = Fin 0 \<or> p = Fin 1))"
  using predict_after_fit[OF example_dataset_valid example_fit_succeeds] example_dataset_valid
  by (auto simp: get_shape_def example_dataset_def)

section \<open>Gradient descent\<close>

lemma gd_update_history_err:
  "gd_update sig d i s = (s', Some e) \<Longrightarrow> cost_history s' = cost_history s"
  by (auto simp: gd_update_def Let_def split: sum.splits prod.splits)

lemma gd_update_history_ok:
  "gd_update sig d i s = (s', None) \<Longrightarrow> \<exists>c. cost_history s' = (cost_history s)(i \<mapsto> c)"
  by (auto simp: gd_update_def Let_def split: sum.splits prod.splits)

lemma gd_update_hyper:
  "gd_update sig d i s = (s', out) \<Longrightarrow>
     alpha s' = alpha s \<and> l2_penalty s' = l2_penalty s \<and> max_iter s' = max_iter s"
  by (auto simp: gd_update_def Let_def split: sum.splits prod.splits)

lemma gd_step_spec:
  assumes valid: "valid_dataset d" and ne: "X d \<noteq> []" and ys: "y d = Some ys"
    and th: "theta s = Some th" "theta_zero s = Some b" "length th = snd (get_shape d)"
  shows "gd_step d s =
           Inr (spec_gradient_step (as_float (alpha s)) (as_float (l2_penalty s)) (X d) ys (th, b))"
proof -
  let ?m = "real (length (X d))"
  let ?z = "map (\<lambda>r. dot r th + b) (X d)"
  let ?r = "map2 (-) ?z ys"
  have m: "0 < ?m" using ne by simp
  have rows: "\<forall>r \<in> set (X d). length r = length th"
    using valid th(3) by (simp add: valid_dataset_def)
  have ls: "linear_score s d = Inr ?z" using linear_score_Some[OF th(1,2) rows] .
  have ly: "length ys = length (X d)" using valid ys by (simp add: valid_dataset_def)
  have lt: "length (transpose (X d)) = length th" using length_transpose_rect[OF ne rows] .
  have r: "broadcast2 (-) ?z ys = Inr ?r" by (simp add: broadcast2_same ly)
  have g: "vec_mat ?r (X d) = Inr (map (dot ?r) (transpose (X d)))"
    by (simp add: vec_mat_def ly)
  have z': "map (\<lambda>s. s + b) (mat_vec (X d) th) = ?z" by (simp add: mat_vec_def comp_def)
  have g': "mat_vec (transpose (X d)) ?r = map (dot ?r) (transpose (X d))"
    by (simp add: mat_vec_def dot_commute[of _ ?r])
  show ?thesis
    using ne
    by (simp add: gd_step_def ls ys r g th bind_err_def Let_def get_shape_def
        broadcast2_same lt spec_gradient_step_def z' g' rate_eq'[OF m] penalty_rate_eq[OF m])
qed

lemma cost_cong:
  "theta s = theta s' \<Longrightarrow> theta_zero s = theta_zero s' \<Longrightarrow> l2_penalty s = l2_penalty s' \<Longrightarrow>
     cost sig s d = cost sig s' d"
  unfolding cost_def linear_score_def by (simp only:)

lemma gd_update_None:
  assumes "gd_update sig d i s = (s', None)"
  shows "\<exists>t b c. gd_step d s = Inr (t, b) \<and>
           cost sig (s\<lparr>theta := Some t, theta_zero := Some b\<rparr>) d = Inr c \<and>
           s' = s\<lparr>theta := Some t, theta_zero := Some b,
                   cost_history := (cost_history s)(i \<mapsto> c)\<rparr>"
  using assms by (auto simp: gd_update_def Let_def split: sum.splits prod.splits)

lemma fit_loop_head_None:
  assumes "fit_loop sig d (i # rest) s = (s', None)"
  shows "\<exists>s1. gd_update sig d i s = (s1, None) \<and>
           ((s' = s1 \<and> 0 < i \<and>
               (\<exists>c0 c1. cost_history s1 (i - 1) = Some c0 \<and> cost_history s1 i = Some c1 \<and>
                  c0 - c1 < Fin 0.0001))
            \<or> fit_loop sig d rest s1 = (s', None))"
proof -
  obtain s1 o1 where u: "gd_update sig d i s = (s1, o1)" by (cases "gd_update sig d i s")
  with assms have o1: "o1 = None" by (cases o1) auto
  have "(s' = s1 \<and> 0 < i \<and>
               (\<exists>c0 c1. cost_history s1 (i - 1) = Some c0 \<and> cost_history s1 i = Some c1 \<and>
                  c0 - c1 < Fin 0.0001))
            \<or> fit_loop sig d rest s1 = (s', None)"
  proof (cases "0 < i")
    case False
    with assms u o1 show ?thesis by simp
  next
    case True
    show ?thesis
    proof (cases "cost_history s1 (i - 1)")
      case None
      with assms u o1 True show ?thesis by simp
    next
      case c0: (Some c0)
      show ?thesis
      proof (cases "cost_history s1 i")
        case None
        with assms u o1 True c0 show ?thesis by simp
      next
        case (Some c1)
        with assms u o1 True c0 show ?thesis
          by (cases "c0 - c1 < Fin 0.0001") simp_all
      qed
    qed
  qed
  with u o1 show ?thesis by blast
qed


lemma fit_loop_trace:
  assumes v: "valid_dataset d" and ys: "y d = Some ys"
  shows "fit_loop sig d [a..<b] s = (s', None) \<Longrightarrow>
         theta s = Some th \<Longrightarrow> theta_zero s = Some b0 \<Longrightarrow> length th = snd (get_shape d) \<Longrightarrow>
         as_float (alpha s) = al \<Longrightarrow> l2_penalty s = l2 \<Longrightarrow>
         \<exists>j. a + j \<le> max a b \<and>
           (theta s', theta_zero s') =
             map_prod Some Some ((spec_gradient_step al (as_float l2) (X d) ys ^^ j) (th, b0)) \<and>
           (\<forall>i < j. \<exists>c.
              cost sig (s\<lparr>theta := Some (fst ((spec_gradient_step al (as_float l2) (X d) ys ^^ Suc i) (th, b0))),
                         theta_zero := Some (snd ((spec_gradient_step al (as_float l2) (X d) ys ^^ Suc i) (th, b0)))\<rparr>) d
                = Inr c \<and>
              cost_history s' (a + i) = Some c) \<and>
           (\<forall>i. i < a \<or> a + j \<le> i \<longrightarrow> cost_history s' i = cost_history s i) \<and>
           (a + j < b \<longrightarrow> 0 < j \<and> 1 < a + j \<and>
              (\<exists>c0 c1. cost_history s' (a + j - 2) = Some c0 \<and>
                 cost_history s' (a + j - 1) = Some c1 \<and> c0 - c1 < Fin 0.0001))"
proof (induction "b - a" arbitrary: a s th b0)
  case 0
  then have "s' = s" "b \<le> a" by auto
  with 0 show ?case by (intro exI[of _ 0]) simp
next
  case (Suc n)
  let ?F = "spec_gradient_step al (as_float l2) (X d) ys"
  from Suc have ab: "a < b" and n: "n = b - Suc a" by auto
  then have upt: "[a..<b] = a # [Suc a..<b]" by (simp add: upt_rec)
  from fit_loop_head_None[OF Suc.prems(1)[unfolded upt]] obtain s1 where
    u: "gd_update sig d a s = (s1, None)" and
    alt: "(s' = s1 \<and> 0 < a \<and>
               (\<exists>c0 c1. cost_history s1 (a - 1) = Some c0 \<and> cost_history s1 a = Some c1 \<and>
                  c0 - c1 < Fin 0.0001))
            \<or> fit_loop sig d [Suc a..<b] s1 = (s', None)"
    by blast
  from gd_update_None[OF u] obtain t b1 c where
    st: "gd_step d s = Inr (t, b1)" and
    c: "cost sig (s\<lparr>theta := Some t, theta_zero := Some b1\<rparr>) d = Inr c" and
    s1: "s1 = s\<lparr>theta := Some t, theta_zero := Some b1, cost_history := (cost_history s)(a \<mapsto> c)\<rparr>"
    by blast
  from gd_step_Inr[OF st] have ne: "X d \<noteq> []" by blast
  from gd_step_spec[OF v ne ys Suc.prems(2,3,4)] st Suc.prems(5,6)
  have F: "?F (th, b0) = (t, b1)" by simp
  from gd_step_Inr[OF st] Suc.prems(2,4) have lt: "length t = snd (get_shape d)" by auto
  have one: "(theta s1, theta_zero s1) = map_prod Some Some ((?F ^^ 1) (th, b0))"
    using s1 F by simp
  have c1: "cost sig (s\<lparr>theta := Some (fst ((?F ^^ Suc 0) (th, b0))),
                        theta_zero := Some (snd ((?F ^^ Suc 0) (th, b0)))\<rparr>) d = Inr c"
    using c F by simp
  have cur: "cost_history s1 a = Some c" using s1 by simp
  from alt show ?case
  proof
    assume stop: "s' = s1 \<and> 0 < a \<and>
               (\<exists>c0 c1. cost_history s1 (a - 1) = Some c0 \<and> cost_history s1 a = Some c1 \<and>
                  c0 - c1 < Fin 0.0001)"
    have "a + 1 \<le> max a b" using ab by simp
    moreover have "(theta s', theta_zero s') = map_prod Some Some ((?F ^^ 1) (th, b0))"
      using stop one by simp
    moreover have "\<forall>i < (1::nat). \<exists>c.
              cost sig (s\<lparr>theta := Some (fst ((?F ^^ Suc i) (th, b0))),
                         theta_zero := Some (snd ((?F ^^ Suc i) (th, b0)))\<rparr>) d = Inr c \<and>
              cost_history s' (a + i) = Some c"
      using c1 cur stop by auto
    moreover have "\<forall>i. i < a \<or> a + 1 \<le> i \<longrightarrow> cost_history s' i = cost_history s i"
      using stop s1 by auto
    moreover have "a + 1 < b \<longrightarrow> 0 < (1::nat) \<and> 1 < a + 1 \<and>
              (\<exists>c0 c1. cost_history s' (a + 1 - 2) = Some c0 \<and>
                 cost_history s' (a + 1 - 1) = Some c1 \<and> c0 - c1 < Fin 0.0001)"
    proof -
      from stop have "a + 1 - 2 = a - 1" "a + 1 - 1 = a" by auto
      with stop show ?thesis by auto
    qed
    ultimately show ?thesis by (intro exI[of _ 1]) blast
  next
    assume go: "fit_loop sig d [Suc a..<b] s1 = (s', None)"
    have h1: "theta s1 = Some t" "theta_zero s1 = Some b1" using s1 by simp_all
    have h2: "as_float (alpha s1) = al" "l2_penalty s1 = l2" using s1 Suc.prems(5,6) by simp_all
    from Suc.hyps(1)[OF n go h1 lt h2] obtain j where
      j1: "Suc a + j \<le> max (Suc a) b" and
      j2: "(theta s', theta_zero s') = map_prod Some Some ((?F ^^ j) (t, b1))" and
      j3: "\<forall>i < j. \<exists>c.
              cost sig (s1\<lparr>theta := Some (fst ((?F ^^ Suc i) (t, b1))),
                          theta_zero := Some (snd ((?F ^^ Suc i) (t, b1)))\<rparr>) d = Inr c \<and>
              cost_history s' (Suc a + i) = Some c" and
      j5: "\<forall>i. i < Suc a \<or> Suc a + j \<le> i \<longrightarrow> cost_history s' i = cost_history s1 i" and
      j4: "Suc a + j < b \<longrightarrow> 0 < j \<and> 1 < Suc a + j \<and>
              (\<exists>c0 c1. cost_history s' (Suc a + j - 2) = Some c0 \<and>
                 cost_history s' (Suc a + j - 1) = Some c1 \<and> c0 - c1 < Fin 0.0001)"
      by blast
    from j5 have frame: "cost_history s' a = cost_history s1 a" by simp
    have sw: "(?F ^^ k) (t, b1) = (?F ^^ Suc k) (th, b0)" for k
      using F by (simp add: funpow_swap1)
    have "a + Suc j \<le> max a b" using j1 ab by simp
    moreover have "(theta s', theta_zero s') = map_prod Some Some ((?F ^^ Suc j) (th, b0))"
      using j2 sw[of j] by simp
    moreover have "\<forall>i < Suc j. \<exists>c.
              cost sig (s\<lparr>theta := Some (fst ((?F ^^ Suc i) (th, b0))),
                         theta_zero := Some (snd ((?F ^^ Suc i) (th, b0)))\<rparr>) d = Inr c \<and>
              cost_history s' (a + i) = Some c"
    proof (intro allI impI)
      fix i assume i: "i < Suc j"
      show "\<exists>c. cost sig (s\<lparr>theta := Some (fst ((?F ^^ Suc i) (th, b0))),
                         theta_zero := Some (snd ((?F ^^ Suc i) (th, b0)))\<rparr>) d = Inr c \<and>
              cost_history s' (a + i) = Some c"
      proof (cases i)
        case 0
        with c1 cur frame show ?thesis by auto
      next
        case (Suc i')
        with i have "i' < j" by simp
        with j3 obtain c' where
          c': "cost sig (s1\<lparr>theta := Some (fst ((?F ^^ Suc i') (t, b1))),
                          theta_zero := Some (snd ((?F ^^ Suc i') (t, b1)))\<rparr>) d = Inr c'"
              "cost_history s' (Suc a + i') = Some c'" by blast
        have "cost sig (s\<lparr>theta := Some (fst ((?F ^^ Suc i) (th, b0))),
                         theta_zero := Some (snd ((?F ^^ Suc i) (th, b0)))\<rparr>) d
              = cost sig (s1\<lparr>theta := Some (fst ((?F ^^ Suc i') (t, b1))),
                          theta_zero := Some (snd ((?F ^^ Suc i') (t, b1)))\<rparr>) d"
          by (rule cost_cong) (simp_all add: s1 Suc sw[of "Suc i'"] del: funpow.simps)
        with c' Suc show ?thesis by simp
      qed
    qed
    moreover have "\<forall>i. i < a \<or> a + Suc j \<le> i \<longrightarrow> cost_history s' i = cost_history s i"
      using j5 s1 by auto
    moreover have "a + Suc j < b \<longrightarrow> 0 < Suc j \<and> 1 < a + Suc j \<and>
              (\<exists>c0 c1. cost_history s' (a + Suc j - 2) = Some c0 \<and>
                 cost_history s' (a + Suc j - 1) = Some c1 \<and> c0 - c1 < Fin 0.0001)"
      using j4 by simp
    ultimately show ?thesis by (intro exI[of _ "Suc j"]) blast
  qed
qed

lemma example_iterate:
  "spec_iterate (Fin 0.1) (Fin 1) [[Fin 1], [Fin 3], [Fin (- 2)], [Fin (- 1)]]
     [Fin 0, Fin 1, Fin 0, Fin 1] 1 2 = ([Fin 0.07875], Fin 0.09375)"
  by (simp add: spec_iterate_def spec_gradient_step_def mat_vec_def dot_def np_sum_def Let_def
      numeral_2_eq_2)

text \<open>
  C4. On a valid labeled dataset, a \<^verbatim>\<open>fit\<close> that returns has made \<open>j\<close> iterations, where
  \<open>j\<close> is \<^verbatim>\<open>max_iter\<close> unless iteration \<open>j - 1 > 0\<close> lowered the cost by less than 0.0001.
  It started from the zero vector of length \<open>n\<close> for \<^verbatim>\<open>theta\<close> and from 0 for \<^verbatim>\<open>theta_zero\<close>,
  and every iteration was the update of the spec: the linear score
  \<open>z = X\<sqdot>theta + theta_zero\<close> without sigmoid, the gradient \<open>(alpha/m)\<sqdot>X\<^sup>t\<sqdot>(z - y)\<close>, the
  separate penalty \<open>(alpha\<sqdot>l2_penalty/m)\<sqdot>theta\<close>, \<open>theta \<leftarrow> theta - gradient - penalty\<close> and
  \<open>theta_zero \<leftarrow> theta_zero - (alpha/m)\<sqdot>\<Sum>(z - y)\<close>. The returned parameters are those
  after \<open>j\<close> such updates; iteration \<open>i < j\<close> wrote into \<^verbatim>\<open>cost_history[i]\<close> the cost at the
  parameters after \<open>i + 1\<close> updates, and no entry from \<open>j\<close> on was written.
\<close>

theorem fit_update_rule:
  assumes "valid_dataset d" and "y d = Some ys" and "fit sig self d = (self', None)"
  shows "\<exists>j k. max_iter self = PyInt k \<and> j \<le> nat k \<and>
           (theta self', theta_zero self') =
             map_prod Some Some
               (spec_iterate (as_float (alpha self)) (as_float (l2_penalty self)) (X d) ys
                  (snd (get_shape d)) j) \<and>
           (\<forall>i < j. \<exists>c.
              cost sig
                (self\<lparr>theta := Some (fst (spec_iterate (as_float (alpha self))
                                            (as_float (l2_penalty self)) (X d) ys
                                            (snd (get_shape d)) (Suc i))),
                       theta_zero := Some (snd (spec_iterate (as_float (alpha self))
                                            (as_float (l2_penalty self)) (X d) ys
                                            (snd (get_shape d)) (Suc i)))\<rparr>) d = Inr c \<and>
              cost_history self' i = Some c) \<and>
           (\<forall>i \<ge> j. cost_history self' i = cost_history self i) \<and>
           (j < nat k \<longrightarrow> 1 < j \<and>
              (\<exists>c0 c1. cost_history self' (j - 2) = Some c0 \<and>
                 cost_history self' (j - 1) = Some c1 \<and> c0 - c1 < Fin 0.0001))"
proof (cases "max_iter self")
  case (PyInt k)
  let ?n = "snd (get_shape d)"
  let ?s0 = "self\<lparr>theta := Some (replicate ?n (Fin 0)), theta_zero := Some (Fin 0)\<rparr>"
  let ?F = "spec_gradient_step (as_float (alpha self)) (as_float (l2_penalty self)) (X d) ys"
  from assms(3) PyInt have run: "fit_loop sig d [0..<nat k] ?s0 = (self', None)"
    by (simp add: fit_def Let_def)
  have "\<exists>j. 0 + j \<le> max 0 (nat k) \<and>
           (theta self', theta_zero self') =
             map_prod Some Some ((?F ^^ j) (replicate ?n (Fin 0), Fin 0)) \<and>
           (\<forall>i < j. \<exists>c.
              cost sig (?s0\<lparr>theta := Some (fst ((?F ^^ Suc i) (replicate ?n (Fin 0), Fin 0))),
                         theta_zero := Some (snd ((?F ^^ Suc i) (replicate ?n (Fin 0), Fin 0)))\<rparr>) d
                = Inr c \<and>
              cost_history self' (0 + i) = Some c) \<and>
           (\<forall>i. i < 0 \<or> 0 + j \<le> i \<longrightarrow> cost_history self' i = cost_history ?s0 i) \<and>
           (0 + j < nat k \<longrightarrow> 0 < j \<and> 1 < 0 + j \<and>
              (\<exists>c0 c1. cost_history self' (0 + j - 2) = Some c0 \<and>
                 cost_history self' (0 + j - 1) = Some c1 \<and> c0 - c1 < Fin 0.0001))"
    by (rule fit_loop_trace[OF assms(1,2) run]) simp_all
  then obtain j where j: "j \<le> nat k"
    "(theta self', theta_zero self') =
             map_prod Some Some ((?F ^^ j) (replicate ?n (Fin 0), Fin 0))"
    "\<forall>i < j. \<exists>c.
              cost sig (?s0\<lparr>theta := Some (fst ((?F ^^ Suc i) (replicate ?n (Fin 0), Fin 0))),
                         theta_zero := Some (snd ((?F ^^ Suc i) (replicate ?n (Fin 0), Fin 0)))\<rparr>) d
                = Inr c \<and>
              cost_history self' i = Some c"
    "\<forall>i \<ge> j. cost_history self' i = cost_history self i"
    "j < nat k \<longrightarrow> 1 < j \<and>
              (\<exists>c0 c1. cost_history self' (j - 2) = Some c0 \<and>
                 cost_history self' (j - 1) = Some c1 \<and> c0 - c1 < Fin 0.0001)"
    by auto
  show ?thesis
    unfolding spec_iterate_def
    using PyInt j by (intro exI[of _ j] exI[of _ k]) simp
next
  case (PyFloat x)
  with assms(3) show ?thesis by (simp add: fit_def Let_def)
qed

theorem fit_update_rule_witness:
  "valid_dataset example_dataset \<and>
   y example_dataset = Some [Fin 0, Fin 1, Fin 0, Fin 1] \<and>
   fit sigmoid_function example_model example_dataset =
     (fst (fit sigmoid_function example_model example_dataset), None) \<and>
   max_iter example_model = PyInt 2 \<and>
   theta (fst (fit sigmoid_function example_model example_dataset)) = Some [Fin 0.07875] \<and>
   theta_zero (fst (fit sigmoid_function example_model example_dataset)) = Some (Fin 0.09375) \<and>
   cost_history (fst (fit sigmoid_function example_model example_dataset)) 0 \<noteq> None \<and>
   cost_history (fst (fit sigmoid_function example_model example_dataset)) 1 \<noteq> None \<and>
   cost_history (fst (fit sigmoid_function example_model example_dataset)) 2 = None"
proof -
  let ?r = "fst (fit sigmoid_function example_model example_dataset)"
  let ?ys = "[Fin 0, Fin 1, Fin 0, Fin 1]"
  have ys: "y example_dataset = Some ?ys"
    by (simp add: example_dataset_def)
  have mi: "max_iter example_model = PyInt 2"
    by (simp add: example_model_def LogisticRegression_init_def)
  have hy: "as_float (alpha example_model) = Fin 0.1" "as_float (l2_penalty example_model) = Fin 1"
    "cost_history example_model = Map.empty"
    by (simp_all add: example_model_def LogisticRegression_init_def)
  have sh: "snd (get_shape example_dataset) = 1" "X example_dataset = [[Fin 1], [Fin 3], [Fin (- 2)], [Fin (- 1)]]"
    by (simp_all add: get_shape_def example_dataset_def)
  from fit_update_rule[OF example_dataset_valid ys example_fit_succeeds]
  obtain j k where k: "max_iter example_model = PyInt k" and j: "j \<le> nat k" and
    p: "(theta ?r, theta_zero ?r) =
          map_prod Some Some (spec_iterate (Fin 0.1) (Fin 1) (X example_dataset) ?ys 1 j)" and
    h: "\<forall>i < j. cost_history ?r i \<noteq> None" and
    f: "\<forall>i \<ge> j. cost_history ?r i = None" and
    e: "j < nat k \<longrightarrow> 1 < j"
    unfolding hy sh(1) by fastforce
  from k mi j e have "j = 2" by auto
  from p \<open>j = 2\<close> have "(theta ?r, theta_zero ?r) =
      map_prod Some Some
        (spec_iterate (Fin 0.1) (Fin 1) [[Fin 1], [Fin 3], [Fin (- 2)], [Fin (- 1)]] ?ys 1 2)"
    by (simp only: sh(2))
  then have "(theta ?r, theta_zero ?r) = map_prod Some Some ([Fin 0.07875], Fin 0.09375)"
    by (simp only: example_iterate)
  then have t: "theta ?r = Some [Fin 0.07875]" "theta_zero ?r = Some (Fin 0.09375)"
    by simp_all
  from h f \<open>j = 2\<close> have c: "cost_history ?r 0 \<noteq> None" "cost_history ?r 1 \<noteq> None"
    "cost_history ?r 2 = None" by simp_all
  from example_dataset_valid ys example_fit_succeeds mi t c show ?thesis by blast
qed

text \<open>On a valid dataset with at least one sample, and an integer \<^verbatim>\<open>max_iter\<close>, no
  pass of the loop raises: \<^verbatim>\<open>fit\<close> returns.\<close>

lemma cost_returns:
  assumes "valid_dataset d" and "fitted (snd (get_shape d)) s"
  shows "\<exists>c. cost sig s d = Inr c"
proof -
  from assms(2) obtain th b where
    th: "theta s = Some th" "theta_zero s = Some b" "length th = snd (get_shape d)"
    by (rule fittedE)
  from assms(1) obtain ys where ys: "y d = Some ys" "length ys = length (X d)"
    by (auto simp: valid_dataset_def split: option.splits)
  have rows: "\<forall>r \<in> set (X d). length r = length th"
    using assms(1) th(3) by (simp add: valid_dataset_def)
  show ?thesis
    by (simp add: cost_def linear_score_Some[OF th(1,2) rows] ys th bind_err_def Let_def
        broadcast2_same)
qed

lemma gd_update_returns:
  assumes "valid_dataset d" and "X d \<noteq> []" and "fitted (snd (get_shape d)) s"
  shows "\<exists>s'. gd_update sig d i s = (s', None)"
proof -
  from assms(3) obtain th b where
    th: "theta s = Some th" "theta_zero s = Some b" "length th = snd (get_shape d)"
    by (rule fittedE)
  from assms(1) obtain ys where ys: "y d = Some ys"
    by (auto simp: valid_dataset_def split: option.splits)
  obtain t b1 where st: "gd_step d s = Inr (t, b1)"
    using gd_step_spec[OF assms(1,2) ys th] by (metis surj_pair)
  from gd_step_Inr[OF st] th have "length t = snd (get_shape d)" by auto
  then have "fitted (snd (get_shape d)) (s\<lparr>theta := Some t, theta_zero := Some b1\<rparr>)"
    by (simp add: fitted_def)
  from cost_returns[OF assms(1) this, of sig] obtain c where
    "cost sig (s\<lparr>theta := Some t, theta_zero := Some b1\<rparr>) d = Inr c" by blast
  with st show ?thesis by (simp add: gd_update_def)
qed

lemma fit_loop_returns:
  assumes v: "valid_dataset d" and ne: "X d \<noteq> []"
  shows "fitted (snd (get_shape d)) s \<Longrightarrow> a = 0 \<or> cost_history s (a - 1) \<noteq> None \<Longrightarrow>
         snd (fit_loop sig d [a..<b] s) = None"
proof (induction "b - a" arbitrary: a s)
  case 0
  then show ?case by simp
next
  case (Suc n)
  then have ab: "a < b" and n: "n = b - Suc a" by auto
  then have upt: "[a..<b] = a # [Suc a..<b]" by (simp add: upt_rec)
  from gd_update_returns[OF v ne Suc.prems(1)] obtain s1 where
    u: "gd_update sig d a s = (s1, None)" by blast
  from gd_update_history_ok[OF u] obtain c where c: "cost_history s1 = (cost_history s)(a \<mapsto> c)"
    by blast
  have f1: "fitted (snd (get_shape d)) s1" using gd_update_fitted[OF u Suc.prems(1)] .
  have cur: "cost_history s1 a = Some c" using c by simp
  have nxt: "Suc a = 0 \<or> cost_history s1 (Suc a - 1) \<noteq> None" using cur by simp
  have rec: "snd (fit_loop sig d [Suc a..<b] s1) = None"
    using Suc.hyps(1)[OF n f1 nxt] .
  show ?case
  proof (cases "0 < a")
    case False
    with u upt rec show ?thesis by simp
  next
    case True
    then have "a - 1 \<noteq> a" by simp
    with c have "cost_history s1 (a - 1) = cost_history s (a - 1)" by simp
    with Suc.prems(2) True obtain c0 where c0: "cost_history s1 (a - Suc 0) = Some c0" by auto
    show ?thesis
      by (simp add: u upt rec True cur c0 if_distrib[of snd])
  qed
qed

lemma fit_returns:
  assumes "valid_dataset d" and "X d \<noteq> []" and "max_iter self = PyInt k"
  shows "snd (fit sig self d) = None"
proof -
  let ?s0 = "self\<lparr>theta := Some (replicate (snd (get_shape d)) (Fin 0)), theta_zero := Some (Fin 0)\<rparr>"
  have "fitted (snd (get_shape d)) ?s0" by (simp add: fitted_def)
  from fit_loop_returns[OF assms(1,2) this, of 0 sig "nat k"] assms(3)
  show ?thesis by (simp add: fit_def Let_def)
qed

section \<open>Iterations and early stopping\<close>

lemma fit_loop_run:
  "fit_loop sig d [a..<b] s = (s', out) \<Longrightarrow>
     \<exists>j. run_of a b (cost_history s) (cost_history s') out j"
proof (induction "b - a" arbitrary: a s)
  case 0
  then have "s' = s" "out = None" "b \<le> a" by auto
  then show ?case by (auto simp: run_of_def intro!: exI[of _ a])
next
  case (Suc n)
  then have ab: "a < b" and n: "n = b - Suc a" by auto
  then have upt: "[a..<b] = a # [Suc a..<b]" by (simp add: upt_rec)
  obtain s1 o1 where u: "gd_update sig d a s = (s1, o1)" by (cases "gd_update sig d a s")
  show ?case
  proof (cases o1)
    case (Some e)
    with Suc.prems u upt have "s' = s1" "out = Some e" by auto
    moreover from u Some have "cost_history s1 = cost_history s"
      by (auto dest: gd_update_history_err)
    ultimately show ?thesis by (auto simp: run_of_def intro!: exI[of _ a])
  next
    case None
    with u obtain c where c: "cost_history s1 = (cost_history s)(a \<mapsto> c)"
      by (auto dest: gd_update_history_ok)
    have stop: "run_of a b (cost_history s) (cost_history s1) None (Suc a)"
      if "0 < a" "cost_history s (a - 1) = Some c0" "c0 - c < Fin 0.0001" for c0
      using that ab c by (auto simp: run_of_def less_Suc_eq)
    have key: "run_of a b (cost_history s) (cost_history s1) (Some KeyError) (Suc a)"
      if "0 < a" "cost_history s (a - 1) = None"
      using that ab c by (auto simp: run_of_def less_Suc_eq)
    have rec: "\<exists>j. run_of a b (cost_history s) (cost_history s') out j"
      if r: "fit_loop sig d [Suc a..<b] s1 = (s', out)"
        and ns: "a = 0 \<or> (\<exists>c0. cost_history s (a - 1) = Some c0 \<and> \<not> c0 - c < Fin 0.0001)"
    proof -
      from Suc.hyps(1)[OF n r] obtain j where
        j: "run_of (Suc a) b (cost_history s1) (cost_history s') out j" by blast
      have "run_of a b (cost_history s) (cost_history s') out j"
        unfolding run_of_def
      proof (intro conjI allI impI)
        show "a \<le> j" using j by (simp add: run_of_def)
        show "j \<le> max a b" using j ab by (simp add: run_of_def max_def split: if_splits)
      next
        fix i assume "a \<le> i \<and> i < j"
        then show "cost_history s' i \<noteq> None"
          using j c by (cases "i = a") (auto simp: run_of_def)
      next
        fix i assume "i < a \<or> j \<le> i"
        then show "cost_history s' i = cost_history s i"
          using j c by (auto simp: run_of_def)
      next
        fix i c0 c1
        assume h: "0 < i \<and> a \<le> i \<and> i < j \<and> cost_history s' (i - 1) = Some c0 \<and>
                   cost_history s' i = Some c1 \<and> c0 - c1 < Fin 0.0001"
        have sa: "cost_history s' a = Some c" "\<And>i. i < a \<Longrightarrow> cost_history s' i = cost_history s i"
          using j c by (auto simp: run_of_def)
        show "i = j - 1"
        proof (cases "i = a")
          case True
          with h ns sa show ?thesis by auto
        next
          case False
          with h j show ?thesis by (auto simp: run_of_def)
        qed
        show "out = None"
        proof (cases "i = a")
          case True
          with h ns sa show ?thesis by auto
        next
          case False
          with h j show ?thesis by (auto simp: run_of_def)
        qed
      next
        assume "out = None \<and> j < b"
        with j show "\<exists>c0 c1. a < j \<and> 1 < j \<and> cost_history s' (j - 2) = Some c0 \<and>
                       cost_history s' (j - 1) = Some c1 \<and> c0 - c1 < Fin 0.0001"
          by (auto simp: run_of_def)
      qed
      then show ?thesis by blast
    qed
    have cur: "cost_history s1 a = Some c" using c by simp
    have prev: "cost_history s1 (a - 1) = cost_history s (a - 1)" if "0 < a"
      using that c by auto
    show ?thesis
    proof (cases "0 < a")
      case False
      with Suc.prems u None upt have "fit_loop sig d [Suc a..<b] s1 = (s', out)" by simp
      from rec[OF this] False show ?thesis by simp
    next
      case True
      show ?thesis
      proof (cases "cost_history s (a - 1)")
        case None': None
        with Suc.prems u None upt True cur prev have "s' = s1" "out = Some KeyError" by auto
        with key[OF True None'] show ?thesis by blast
      next
        case (Some c0)
        show ?thesis
        proof (cases "c0 - c < Fin 0.0001")
          case True': True
          with Suc.prems u None upt True cur prev Some have "s' = s1" "out = None" by auto
          with stop[OF True Some True'] show ?thesis by blast
        next
          case False
          with Suc.prems u None upt True cur prev Some
          have "fit_loop sig d [Suc a..<b] s1 = (s', out)" by auto
          from rec[OF this] Some False show ?thesis by auto
        qed
      qed
    qed
  qed
qed


text \<open>
  C5. \<^verbatim>\<open>fit\<close> makes at most \<^verbatim>\<open>max_iter\<close> iterations, so that the cost history gains at most
  \<^verbatim>\<open>max_iter\<close> entries; and an iteration \<open>i > 0\<close> with
  \<open>cost_history[i-1] - cost_history[i] < 0.0001\<close> is the last one, \<^verbatim>\<open>fit\<close> returns there,
  also before \<^verbatim>\<open>max_iter\<close> is reached. Here \<open>j\<close> is the number of iterations made: they
  wrote the entries below \<open>j\<close> and nothing else changed.
\<close>

theorem fit_iterations:
  assumes "fit sig self d = (self', out)" and "max_iter self = PyInt k"
  shows "\<exists>j \<le> nat k.
           (\<forall>i < j. cost_history self' i \<noteq> None) \<and>
           (\<forall>i \<ge> j. cost_history self' i = cost_history self i) \<and>
           card (dom (cost_history self') - dom (cost_history self)) \<le> nat k \<and>
           (\<forall>i c0 c1. 0 < i \<and> i < j \<and> cost_history self' (i - 1) = Some c0 \<and>
               cost_history self' i = Some c1 \<and> c0 - c1 < Fin 0.0001
               \<longrightarrow> i = j - 1 \<and> out = None) \<and>
           (out = None \<and> j < nat k \<longrightarrow>
              (\<exists>c0 c1. 1 < j \<and> cost_history self' (j - 2) = Some c0 \<and>
                 cost_history self' (j - 1) = Some c1 \<and> c0 - c1 < Fin 0.0001))"
proof -
  let ?s0 = "self\<lparr>theta := Some (replicate (snd (get_shape d)) (Fin 0)), theta_zero := Some (Fin 0)\<rparr>"
  from assms have "fit_loop sig d [0..<nat k] ?s0 = (self', out)"
    by (simp add: fit_def Let_def)
  from fit_loop_run[OF this] obtain j where
    j: "run_of 0 (nat k) (cost_history self) (cost_history self') out j" by auto
  have sub: "dom (cost_history self') - dom (cost_history self) \<subseteq> {..<j}"
  proof
    fix i assume i: "i \<in> dom (cost_history self') - dom (cost_history self)"
    show "i \<in> {..<j}"
    proof (rule ccontr)
      assume "i \<notin> {..<j}"
      then have "cost_history self' i = cost_history self i" using j by (simp add: run_of_def)
      moreover from i have "cost_history self' i \<noteq> None" "cost_history self i = None"
        by (auto simp: dom_def)
      ultimately show False by simp
    qed
  qed
  have "card (dom (cost_history self') - dom (cost_history self)) \<le> card {..<j}"
    by (rule card_mono[OF _ sub]) simp
  then have card: "card (dom (cost_history self') - dom (cost_history self)) \<le> nat k"
    using j by (simp add: run_of_def)
  from j have j1: "j \<le> nat k" "\<forall>i < j. cost_history self' i \<noteq> None"
      "\<forall>i \<ge> j. cost_history self' i = cost_history self i"
    by (simp_all add: run_of_def)
  from j have j2: "\<forall>i c0 c1. 0 < i \<and> i < j \<and> cost_history self' (i - 1) = Some c0 \<and>
               cost_history self' i = Some c1 \<and> c0 - c1 < Fin 0.0001
               \<longrightarrow> i = j - 1 \<and> out = None"
    unfolding run_of_def by blast
  from j have j3: "out = None \<and> j < nat k \<longrightarrow>
              (\<exists>c0 c1. 1 < j \<and> cost_history self' (j - 2) = Some c0 \<and>
                 cost_history self' (j - 1) = Some c1 \<and> c0 - c1 < Fin 0.0001)"
    unfolding run_of_def by blast
  from j1 card j2 j3 show ?thesis by blast
qed

lemma patient_fit_stops:
  "snd (fit sigmoid_function patient_model single_class_dataset) = None"
  "cost_history (fst (fit sigmoid_function patient_model single_class_dataset)) 1 \<noteq> None"
  "cost_history (fst (fit sigmoid_function patient_model single_class_dataset)) 2 = None"
  by (simp_all add: fit_def gd_update_def gd_step_def cost_def linear_score_def get_shape_def
      bind_err_def broadcast2_def vec_mat_def dot_def np_sum_def Let_def upt_rec
      patient_model_def single_class_dataset_def LogisticRegression_init_def
      sigmoid_function_def)

theorem fit_iterations_witness:
  "max_iter patient_model = PyInt 5 \<and>
   fit sigmoid_function patient_model single_class_dataset =
     (fst (fit sigmoid_function patient_model single_class_dataset), None) \<and>
   cost_history (fst (fit sigmoid_function patient_model single_class_dataset)) 2 = None \<and>
   (\<exists>c0 c1. cost_history (fst (fit sigmoid_function patient_model single_class_dataset)) 0 = Some c0 \<and>
      cost_history (fst (fit sigmoid_function patient_model single_class_dataset)) 1 = Some c1 \<and>
      c0 - c1 < Fin 0.0001)"
proof -
  let ?F = "fit sigmoid_function patient_model single_class_dataset"
  have mi: "max_iter patient_model = PyInt 5"
    by (simp add: patient_model_def LogisticRegression_init_def)
  have h0: "cost_history patient_model = Map.empty"
    by (simp add: patient_model_def LogisticRegression_init_def)
  have F: "?F = (fst ?F, None)" using patient_fit_stops(1) by (metis prod.collapse)
  from fit_iterations[OF F mi] obtain j where
    j: "j \<le> nat 5" "\<forall>i < j. cost_history (fst ?F) i \<noteq> None"
       "\<forall>i \<ge> j. cost_history (fst ?F) i = cost_history patient_model i"
       "j < nat 5 \<longrightarrow> (\<exists>c0 c1. 1 < j \<and> cost_history (fst ?F) (j - 2) = Some c0 \<and>
                 cost_history (fst ?F) (j - 1) = Some c1 \<and> c0 - c1 < Fin 0.0001)"
    by blast
  have "\<not> 2 < j" using j(2) patient_fit_stops(3) by blast
  moreover have "\<not> j \<le> 1" using j(3) patient_fit_stops(2) h0 by auto
  ultimately have "j = 2" by simp
  with j(4) mi F patient_fit_stops(3) show ?thesis by simp
qed

section \<open>The cost at saturated predictions\<close>









section \<open>Use before fit\<close>

text \<open>
  C7, as amended. \<^verbatim>\<open>predict\<close> and \<^verbatim>\<open>score\<close> have no check that the estimator was fit: on an
  estimator whose \<^verbatim>\<open>theta\<close> is still \<^verbatim>\<open>None\<close> and a dataset whose feature matrix has an
  entry, the \<^verbatim>\<open>None\<close> reaches \<^verbatim>\<open>np.dot\<close> and the call fails with the \<^verbatim>\<open>TypeError\<close> of numpy.
\<close>

theorem unfit_predict_type_error:
  assumes "theta self = None" and "concat (X d) \<noteq> []"
  shows "predict sig self d = Inl TypeError \<and> score sig acc self d = Inl TypeError"
  using assms by (simp add: predict_def score_def linear_score_def)

theorem unfit_predict_type_error_witness:
  "theta unfit_model = None \<and> concat (X example_dataset) \<noteq> [] \<and>
   predict sigmoid_function unfit_model example_dataset = Inl TypeError \<and>
   score sigmoid_function accuracy unfit_model example_dataset = Inl TypeError"
  using unfit_predict_type_error[of unfit_model example_dataset sigmoid_function accuracy]
  by (simp add: unfit_model_def LogisticRegression_init_def example_dataset_def)

text \<open>
  C7 as the claim states it fails: on the estimator as the constructor leaves it, neither
  method ends in a "not fitted" condition.
\<close>

theorem not_fitted_counterexample:
  "predict sigmoid_function unfit_model example_dataset \<noteq> Inl NotFittedError \<and>
   score sigmoid_function accuracy unfit_model example_dataset \<noteq> Inl NotFittedError"
  by (simp add: predict_def score_def linear_score_def unfit_model_def
      LogisticRegression_init_def example_dataset_def)

section \<open>Cross-validation\<close>

lemma cross_validate_no_fold:
  "cv \<le> 0 \<Longrightarrow> cross_validate ops split model d scoring cv ts g = (model, g, Inr None)"
  by (simp add: cross_validate_def)

lemma cross_validate_first_fold:
  "0 < cv \<Longrightarrow>
   cross_validate ops split model d scoring cv ts g =
     (case cv_fold ops split model d scoring ts g \<lparr>seeds = [], train = [], test = []\<rparr> of
        (model', g', Inl e) \<Rightarrow> (model', g', Inl e)
      | (model', g', Inr sc') \<Rightarrow> (model', g', Inr (Some sc')))"
proof -
  assume "0 < cv"
  then have "[0..<nat cv] = 0 # [1..<nat cv]" by (simp add: upt_rec)
  then show ?thesis by (simp add: cross_validate_def)
qed

lemma cv_fold_model:
  assumes "cv_fold ops split model d scoring ts g sc = (m', g', out)"
  shows "\<exists>tr fo. fit_of ops model tr = (m', fo)"
  using assms
  by (auto simp: cv_fold_def Let_def split: prod.splits option.splits)

lemma cross_validate_model:
  assumes "cross_validate ops split model d scoring cv ts g = (m', g', out)"
  shows "m' = model \<or> (\<exists>tr fo. fit_of ops model tr = (m', fo))"
proof (cases "0 < cv")
  case False
  with assms show ?thesis by (simp add: cross_validate_no_fold)
next
  case True
  obtain m1 g1 o1 where f: "cv_fold ops split model d scoring ts g \<lparr>seeds = [], train = [], test = []\<rparr> = (m1, g1, o1)"
    by (metis prod_cases3)
  with assms True have "m' = m1"
    by (auto simp: cross_validate_first_fold split: sum.splits)
  with cv_fold_model[OF f] show ?thesis by blast
qed

lemma cv_fold_Inr:
  assumes "cv_fold ops split model d scoring ts g sc = (m', g', Inr sc')"
  shows "\<exists>tr te s1 s2.
           split d ts (fst (randint g)) = (tr, te) \<and> g' = snd (randint g) \<and>
           fit_of ops model tr = (m', None) \<and>
           score_of ops m' tr = Inr s1 \<and>
           seeds sc' = seeds sc @ [fst (randint g)] \<and>
           (case scoring of
              None \<Rightarrow> score_of ops m' te = Inr s2 \<and>
                       train sc' = train sc @ [s1] \<and> test sc' = test sc @ [s2]
            | Some f \<Rightarrow> train sc' = train sc @ [f (y tr) s1] \<and>
                        test sc' = test sc @ [f (y te) s1])"
  using assms
  by (auto simp: cv_fold_def Let_def bind_err_def
      split: prod.splits option.splits sum.splits)

lemma cross_validate_single_fold:
  assumes "cross_validate ops split model d scoring cv ts g = (m', g', Inr (Some sc))"
  shows "0 < cv \<and> length (seeds sc) = 1 \<and> length (train sc) = 1 \<and> length (test sc) = 1"
proof (cases "0 < cv")
  case False
  with assms show ?thesis by (simp add: cross_validate_no_fold)
next
  case True
  with assms obtain sc' where
    "cv_fold ops split model d scoring ts g \<lparr>seeds = [], train = [], test = []\<rparr> = (m', g', Inr sc)"
    by (auto simp: cross_validate_first_fold split: prod.splits sum.splits)
  from cv_fold_Inr[OF this] True show ?thesis
    by (auto split: option.splits)
qed

lemmas cv_defs =
  cross_validate_def cv_fold_def randint_def train_test_split_def rotate_by_def
  LogisticRegression_ops_def score_def predict_def accuracy_def seeds_from_def
  value_scoring_def

text \<open>
  C1. The claim is that \<^verbatim>\<open>cross_validate\<close> with \<^verbatim>\<open>cv = n\<close> returns lists of length \<open>n\<close>.
  The \<^verbatim>\<open>return\<close> is inside the loop: with \<^verbatim>\<open>cv = 5\<close>, as in the example call of the
  source, the lists of the record have one entry each.
\<close>

theorem cross_validate_five_folds:
  "snd (snd (cross_validate (LogisticRegression_ops sigmoid_function accuracy) train_test_split
       example_model example_dataset None 5 (Fin 0.25) (seeds_from 7)))
     = Inr (Some \<lparr>seeds = [7], train = [Fin (2 / 3)], test = [Fin 0]\<rparr>)"
  by (simp add: cv_defs example_defs sigmoid_ge_half)

text \<open>
  C3. The claim is that with a scoring function the entry of the test list is the scoring
  of the labels of the test split and the score of the model on the test split. The source
  passes the score on the train split: here the model scores 2/3 on the train split and 0
  on the test split, and the test entry is the scoring of 2/3.
\<close>

theorem cross_validate_scoring_test_entry:
  "snd (snd (cross_validate (LogisticRegression_ops sigmoid_function accuracy) train_test_split
       example_model example_dataset (Some value_scoring) 5 (Fin 0.25) (seeds_from 7)))
     = Inr (Some \<lparr>seeds = [7], train = [Fin (2 / 3)], test = [Fin (2 / 3)]\<rparr>) \<and>
   score sigmoid_function accuracy
     (fst (cross_validate (LogisticRegression_ops sigmoid_function accuracy) train_test_split
        example_model example_dataset (Some value_scoring) 5 (Fin 0.25) (seeds_from 7)))
     (snd (train_test_split example_dataset (Fin 0.25) 7)) = Inr (Fin 0)"
  by (simp add: cv_defs example_defs sigmoid_ge_half)

section \<open>Grid search\<close>

lemma set_parameters_split:
  "fold (\<lambda>(parameter, v) (m, ps). (setattr ops m parameter v, AList.update parameter v ps)) zs (m, ps)
     = (fold (\<lambda>(parameter, v) m. setattr ops m parameter v) zs m,
        fold (\<lambda>(parameter, v) ps. AList.update parameter v ps) zs ps)"
  by (induction zs arbitrary: m ps) auto




lemma fold_setattr_get:
  assumes law: "\<And>m p v q. p \<in> K \<Longrightarrow> q \<in> K \<Longrightarrow>
                  getattr (setattr ops m p v) q = (if q = p then Some v else getattr m q)"
  shows "distinct (map fst zs) \<Longrightarrow> fst ` set zs \<subseteq> K \<Longrightarrow> q \<in> K \<Longrightarrow>
         getattr (fold (\<lambda>(parameter, v) m. setattr ops m parameter v) zs m) q =
           (case map_of zs q of Some v \<Rightarrow> Some v | None \<Rightarrow> getattr m q)"
proof (induction zs arbitrary: m)
  case Nil
  then show ?case by simp
next
  case (Cons z zs)
  obtain k v where z: "z = (k, v)" by (cases z)
  from Cons.prems z have k: "k \<in> K" "k \<notin> fst ` set zs" by auto
  then have none: "map_of zs k = None" by (simp add: map_of_eq_None_iff)
  from Cons.IH[of "setattr ops m k v"] Cons.prems z law[OF k(1) Cons.prems(3)] none
  show ?case by (auto split: option.splits)
qed

lemma set_parameters_model:
  assumes law: "\<And>m p v q. p \<in> set keys \<Longrightarrow> q \<in> set keys \<Longrightarrow>
                  getattr (setattr ops m p v) q = (if q = p then Some v else getattr m q)"
    and d: "distinct keys" and l: "length combination = length keys"
  shows "map (getattr (fst (set_parameters ops keys combination model))) keys
           = map Some combination"
proof (rule nth_equalityI)
  show "length (map (getattr (fst (set_parameters ops keys combination model))) keys)
          = length (map Some combination)" using l by simp
next
  fix i assume "i < length (map (getattr (fst (set_parameters ops keys combination model))) keys)"
  then have i: "i < length keys" by simp
  have dz: "distinct (map fst (zip keys combination))" using d l by simp
  have sub: "fst ` set (zip keys combination) \<subseteq> set keys"
    by (auto dest: set_zip_leftD)
  have mo: "map_of (zip keys combination) (keys ! i) = Some (combination ! i)"
    using d l i by (simp add: map_of_zip_nth)
  have "getattr (fst (set_parameters ops keys combination model)) (keys ! i) = Some (combination ! i)"
    using fold_setattr_get[where K="set keys" and getattr=getattr and ops=ops, OF law dz sub, of "keys ! i" model]
      i mo
    by (simp add: set_parameters_def set_parameters_split)
  then show "map (getattr (fst (set_parameters ops keys combination model))) keys ! i
               = map Some combination ! i"
    using i l by simp
qed


lemma product_lists_nonempty:
  "\<forall>xs \<in> set xss. xs \<noteq> [] \<Longrightarrow> product_lists xss \<noteq> []"
proof (induction xss)
  case Nil
  then show ?case by simp
next
  case (Cons xs xss)
  then obtain x xs' where "xs = x # xs'" by (cases xs) auto
  with Cons show ?case by simp
qed

lemma last_concat_last:
  "xss \<noteq> [] \<Longrightarrow> last xss \<noteq> [] \<Longrightarrow> last (concat xss) = last (last xss)"
  by (induction xss) (auto simp: last_append)

lemma last_product_lists:
  "\<forall>xs \<in> set xss. xs \<noteq> [] \<Longrightarrow> last (product_lists xss) = map last xss"
proof (induction xss)
  case Nil
  then show ?case by simp
next
  case (Cons xs xss)
  then have "product_lists xss \<noteq> []" "xs \<noteq> []"
    by (simp_all add: product_lists_nonempty)
  with Cons show ?case
    by (simp add: last_concat_last last_map)
qed

lemma grid_loop_step:
  assumes "grid_loop ops split d keys scoring cv ts (c # rest) m g acc = (m', g', Inr recs)"
  shows "\<exists>m2 g2 sc.
           cross_validate ops split (fst (set_parameters ops keys c m)) d scoring cv ts g
             = (m2, g2, Inr (Some sc)) \<and>
           grid_loop ops split d keys scoring cv ts rest m2 g2
             (acc @ [\<lparr>seeds = seeds sc, train = train sc, test = test sc,
                      parameters = snd (set_parameters ops keys c m)\<rparr>]) = (m', g', Inr recs)"
proof -
  obtain m1 ps where sp: "set_parameters ops keys c m = (m1, ps)" by (cases "set_parameters ops keys c m")
  obtain m2 g2 o2 where cv: "cross_validate ops split m1 d scoring cv ts g = (m2, g2, o2)"
    by (metis prod_cases3)
  from assms sp cv obtain sc where "o2 = Inr (Some sc)"
    by (cases o2) (auto split: option.splits)
  with assms sp cv show ?thesis by simp
qed


lemma grid_loop_last:
  assumes law: "\<And>m p v q. p \<in> set keys \<Longrightarrow> q \<in> set keys \<Longrightarrow>
                  getattr (setattr ops m p v) q = (if q = p then Some v else getattr m q)"
    and keeps: "\<And>m dd m1 fo p. p \<in> set keys \<Longrightarrow> fit_of ops m dd = (m1, fo) \<Longrightarrow>
                  getattr m1 p = getattr m p"
    and dk: "distinct keys"
  shows "grid_loop ops split d keys scoring cv ts combos m g acc = (m', g', Inr recs) \<Longrightarrow>
         combos \<noteq> [] \<Longrightarrow> \<forall>c \<in> set combos. length c = length keys \<Longrightarrow>
         map (getattr m') keys = map Some (last combos)"
proof (induction combos arbitrary: m g acc)
  case Nil
  then show ?case by simp
next
  case (Cons c rest)
  from grid_loop_step[OF Cons.prems(1)] obtain m2 g2 and sc :: scores where
    cv: "cross_validate ops split (fst (set_parameters ops keys c m)) d scoring cv ts g
             = (m2, g2, Inr (Some sc))" and
    r: "grid_loop ops split d keys scoring cv ts rest m2 g2
             (acc @ [\<lparr>seeds = seeds sc, train = train sc, test = test sc,
                      parameters = snd (set_parameters ops keys c m)\<rparr>]) = (m', g', Inr recs)"
    by blast
  show ?case
  proof (cases "rest = []")
    case False
    with Cons.IH[OF r] Cons.prems(3) show ?thesis by simp
  next
    case True
    with r have m': "m' = m2" by simp
    let ?m1 = "fst (set_parameters ops keys c m)"
    have "\<forall>p \<in> set keys. getattr m2 p = getattr ?m1 p"
      using cross_validate_model[OF cv] keeps by auto
    then have "map (getattr m2) keys = map (getattr ?m1) keys" by simp
    also have "\<dots> = map Some c"
      using set_parameters_model[where getattr=getattr, OF law dk] Cons.prems(3) by simp
    finally show ?thesis using True m' by simp
  qed
qed

lemma lr_get_set:
  "p \<in> {''l2_penalty'', ''alpha'', ''max_iter''} \<Longrightarrow>
     lr_getattr (lr_setattr m p v) q = (if q = p then Some v else lr_getattr m q)"
  by (auto simp: lr_getattr_def lr_setattr_def)

lemma fit_loop_hyper:
  "fit_loop sig d is s = (s', out) \<Longrightarrow>
     alpha s' = alpha s \<and> l2_penalty s' = l2_penalty s \<and> max_iter s' = max_iter s"
proof (induction "is" arbitrary: s)
  case Nil
  then show ?case by simp
next
  case (Cons i rest)
  obtain s1 o1 where u: "gd_update sig d i s = (s1, o1)" by (cases "gd_update sig d i s")
  have "s' = s1 \<or> fit_loop sig d rest s1 = (s', out)"
    using Cons.prems u by (auto split: option.splits if_splits)
  with Cons.IH[of s1] gd_update_hyper[OF u] show ?case by auto
qed

lemma fit_hyper:
  "fit sig self d = (self', out) \<Longrightarrow>
     alpha self' = alpha self \<and> l2_penalty self' = l2_penalty self \<and> max_iter self' = max_iter self"
  by (auto simp: fit_def Let_def split: pynum.splits dest!: fit_loop_hyper)

lemma lr_fit_keeps:
  "fit sig self d = (self', out) \<Longrightarrow> lr_getattr self' p = lr_getattr self p"
  by (auto simp: lr_getattr_def dest!: fit_hyper)

lemmas grid_defs =
  grid_search_def set_parameters_def lr_hasattr_def lr_setattr_def lr_attributes_def
  example_grid_def unknown_grid_def

lemma example_grid_search:
  "grid_search (LogisticRegression_ops sigmoid_function accuracy) train_test_split
     example_model example_dataset example_grid None 3 (Fin 0.25) (seeds_from 7) =
   (fst (grid_search (LogisticRegression_ops sigmoid_function accuracy) train_test_split
           example_model example_dataset example_grid None 3 (Fin 0.25) (seeds_from 7)),
    seeds_from 11,
    Inr [\<lparr>seeds = [7], train = [Fin (2 / 3)], test = [Fin 0],
           parameters = [(''l2_penalty'', PyInt 1), (''max_iter'', PyInt 1)]\<rparr>,
         \<lparr>seeds = [8], train = [Fin 1], test = [Fin 0],
           parameters = [(''l2_penalty'', PyInt 1), (''max_iter'', PyInt 2)]\<rparr>,
         \<lparr>seeds = [9], train = [Fin (1 / 3)], test = [Fin 0],
           parameters = [(''l2_penalty'', PyInt 10), (''max_iter'', PyInt 1)]\<rparr>,
         \<lparr>seeds = [10], train = [Fin (2 / 3)], test = [Fin 1],
           parameters = [(''l2_penalty'', PyInt 10), (''max_iter'', PyInt 2)]\<rparr>])"
proof -
  let ?G = "grid_search (LogisticRegression_ops sigmoid_function accuracy) train_test_split
     example_model example_dataset example_grid None 3 (Fin 0.25) (seeds_from 7)"
  have "fst (snd ?G) = seeds_from 11"
    by (simp add: grid_defs cv_defs example_defs sigmoid_ge_half fun_eq_iff)
  moreover have "snd (snd ?G) =
    Inr [\<lparr>seeds = [7], train = [Fin (2 / 3)], test = [Fin 0],
           parameters = [(''l2_penalty'', PyInt 1), (''max_iter'', PyInt 1)]\<rparr>,
         \<lparr>seeds = [8], train = [Fin 1], test = [Fin 0],
           parameters = [(''l2_penalty'', PyInt 1), (''max_iter'', PyInt 2)]\<rparr>,
         \<lparr>seeds = [9], train = [Fin (1 / 3)], test = [Fin 0],
           parameters = [(''l2_penalty'', PyInt 10), (''max_iter'', PyInt 1)]\<rparr>,
         \<lparr>seeds = [10], train = [Fin (2 / 3)], test = [Fin 1],
           parameters = [(''l2_penalty'', PyInt 10), (''max_iter'', PyInt 2)]\<rparr>]"
    by (simp add: grid_defs cv_defs example_defs sigmoid_ge_half)
  ultimately show ?thesis by (metis prod.collapse)
qed



text \<open>
  C6. When a key of the grid is not an attribute of the model, \<^verbatim>\<open>grid_search\<close> raises an
  \<^verbatim>\<open>AttributeError\<close> that names the first such key and the model; the model and the random
  generator are as before the call, so no attribute was assigned and no fold was run, and
  there is no list of results.
\<close>

theorem grid_search_unknown_parameter:
  assumes "p \<in> set (map fst parameter_grid)" and "\<not> hasattr ops model p"
  shows "\<exists>q \<in> set (map fst parameter_grid). \<not> hasattr ops model q \<and>
           grid_search ops split model d parameter_grid scoring cv ts g =
             (model, g,
              Inl (AttributeError (''Model '' @ str_of ops model @ '' does not have parameter ''
                                     @ q @ ''.'')))"
proof -
  from assms obtain q where
    q: "find (\<lambda>parameter. \<not> hasattr ops model parameter) (map fst parameter_grid) = Some q"
    by (cases "find (\<lambda>parameter. \<not> hasattr ops model parameter) (map fst parameter_grid)")
       (auto simp: find_None_iff)
  then have "q \<in> set (map fst parameter_grid)" "\<not> hasattr ops model q"
    by (auto simp: find_Some_iff)
  with q show ?thesis by (auto simp: grid_search_def)
qed

theorem grid_search_unknown_parameter_witness:
  "''gamma'' \<in> set (map fst unknown_grid) \<and> \<not> lr_hasattr example_model ''gamma'' \<and>
   grid_search (LogisticRegression_ops sigmoid_function accuracy) train_test_split
     example_model example_dataset unknown_grid None 3 (Fin 0.25) (seeds_from 7) =
   (example_model, seeds_from 7,
    Inl (AttributeError ''Model <LogisticRegression object> does not have parameter gamma.''))"
  using grid_search_unknown_parameter[of "''gamma''" unknown_grid
      "LogisticRegression_ops sigmoid_function accuracy" example_model train_test_split
      example_dataset None 3 "Fin 0.25" "seeds_from 7"]
  by (auto simp: unknown_grid_def LogisticRegression_ops_def lr_hasattr_def lr_attributes_def)

text \<open>
  C10. When \<^verbatim>\<open>grid_search\<close> returns, on a grid with at least one combination, the attributes
  of the model that the grid names hold the values of the last combination of the Cartesian
  product, for every key of the grid the last value of its list. The attributes are
  hyperparameters: reading one gives what was last assigned to it, and \<^verbatim>\<open>fit\<close> does not
  assign them.
\<close>

theorem grid_search_leaves_last_combination:
  assumes ret: "grid_search ops split model d parameter_grid scoring cv ts g = (m', g', Inr recs)"
    and dk: "distinct (map fst parameter_grid)"
    and ne: "\<forall>(k, vs) \<in> set parameter_grid. vs \<noteq> []"
    and law: "\<And>m p v q. p \<in> set (map fst parameter_grid) \<Longrightarrow> q \<in> set (map fst parameter_grid) \<Longrightarrow>
                  getattr (setattr ops m p v) q = (if q = p then Some v else getattr m q)"
    and keeps: "\<And>m dd m1 fo p. p \<in> set (map fst parameter_grid) \<Longrightarrow> fit_of ops m dd = (m1, fo) \<Longrightarrow>
                  getattr m1 p = getattr m p"
  shows "map (getattr m') (map fst parameter_grid)
           = map Some (last (product_lists (map snd parameter_grid)))
         \<and> (\<forall>(k, vs) \<in> set parameter_grid. getattr m' k = Some (last vs))"
proof -
  let ?keys = "map fst parameter_grid"
  let ?vals = "map snd parameter_grid"
  from ret have
    gl: "grid_loop ops split d ?keys scoring cv ts (product_lists ?vals) model g [] = (m', g', Inr recs)"
    by (auto simp: grid_search_def split: option.splits)
  have nev: "\<forall>xs \<in> set ?vals. xs \<noteq> []" using ne by auto
  have nep: "product_lists ?vals \<noteq> []" using product_lists_nonempty[OF nev] .
  have len: "\<forall>c \<in> set (product_lists ?vals). length c = length ?keys"
    by (auto dest: in_set_product_lists_length)
  have main: "map (getattr m') ?keys = map Some (last (product_lists ?vals))"
    using grid_loop_last[where getattr=getattr, OF law keeps dk gl nep len] .
  have "\<forall>(k, vs) \<in> set parameter_grid. getattr m' k = Some (last vs)"
  proof (clarify)
    fix k vs assume kv: "(k, vs) \<in> set parameter_grid"
    then obtain i where i: "i < length parameter_grid" "parameter_grid ! i = (k, vs)"
      by (auto simp: in_set_conv_nth)
    have "map (getattr m') ?keys = map Some (map last ?vals)"
      using main by (simp only: last_product_lists[OF nev])
    then have "map (getattr m') ?keys ! i = map Some (map last ?vals) ! i"
      by (rule arg_cong)
    with i show "getattr m' k = Some (last vs)" by simp
  qed
  with main show ?thesis by blast
qed

theorem grid_search_leaves_last_combination_witness:
  "distinct (map fst example_grid) \<and>
   [PyInt 1, PyInt 10] \<noteq> [] \<and> [PyInt 1, PyInt 2] \<noteq> [] \<and>
   l2_penalty (fst (grid_search (LogisticRegression_ops sigmoid_function accuracy)
               train_test_split example_model example_dataset example_grid None 3 (Fin 0.25)
               (seeds_from 7))) = PyInt 10 \<and>
   max_iter (fst (grid_search (LogisticRegression_ops sigmoid_function accuracy)
               train_test_split example_model example_dataset example_grid None 3 (Fin 0.25)
               (seeds_from 7))) = PyInt 2"
proof -
  have dk: "distinct (map fst example_grid)" by (simp add: example_grid_def)
  have ne: "\<forall>(k, vs) \<in> set example_grid. vs \<noteq> []" by (simp add: example_grid_def)
  have law: "lr_getattr (setattr (LogisticRegression_ops sigmoid_function accuracy) m p v) q
               = (if q = p then Some v else lr_getattr m q)"
    if "p \<in> set (map fst example_grid)" for m p v q
    using that lr_get_set[of p m v q]
    by (auto simp: example_grid_def LogisticRegression_ops_def)
  have keeps: "lr_getattr m1 p = lr_getattr m p"
    if "fit_of (LogisticRegression_ops sigmoid_function accuracy) m dd = (m1, fo)" for m dd m1 fo p
    using that lr_fit_keeps[of sigmoid_function m dd m1 fo p]
    by (simp add: LogisticRegression_ops_def)
  from grid_search_leaves_last_combination[where getattr=lr_getattr,
      OF example_grid_search dk ne law keeps] dk ne
  show ?thesis
    by (simp add: example_grid_def lr_getattr_def)
qed

end
